theory Spec2Isabelle
  imports Main "HOL-Library.AList" "HOL-Library.Multiset"
begin

section \<open>The resilient WebSocket messaging client (WebSocketContext)\<close>

text \<open>
  The development models the React provider \<^verbatim>\<open>WebSocketProvider\<close>: its refs and state
  variables become one record, each handler a function from state to state, and everything
  the provider does to the outside world (frames written to a socket, promises settled,
  HTTP requests issued) is appended to a log of effects.

  The model is of one event-loop turn at a time. Within a turn every \<^verbatim>\<open>Date.now()\<close> reads
  the same value, which the turn receives from outside. The reactions chained to a promise
  run in the turn that settles it; the model runs them where \<^verbatim>\<open>resolve\<close> or \<^verbatim>\<open>reject\<close> is
  called, which gives the same state as running them at the end of the turn: a reaction to a
  fulfilment only settles the caller's promise, and a rejection is the last statement of
  its handler. \<^verbatim>\<open>setConnectionState\<close> takes effect at once, so that a call of
  \<^verbatim>\<open>sendMessage\<close> sees the \<^verbatim>\<open>connectionState\<close> of the latest turn and keeps that value
  across its \<^verbatim>\<open>await\<close>.
  Timers, sockets and promises are objects with an identity: each is named by a number, and
  the state holds the ones that exist.
\<close>

subsection \<open>Data\<close>

text \<open>The four values of \<^verbatim>\<open>WebSocket.readyState\<close>.\<close>

datatype readyState = CONNECTING | OPEN | CLOSING | CLOSED

text \<open>The React state variable \<^verbatim>\<open>connectionState\<close>:
  \<^verbatim>\<open>'connecting' | 'connected' | 'disconnected' | 'error'\<close>.\<close>

datatype connectionState = Connecting | Connected | Disconnected | Error

text \<open>\<^verbatim>\<open>ChatRequest\<close>; an absent or null field is \<open>None\<close>.\<close>

record ChatRequest =
  message :: string
  include_audio :: "bool option"
  audio_data :: "string option"
  context_id :: "string option"

text \<open>\<^verbatim>\<open>ChatResponse\<close>, with its three mandatory fields; the timestamp is kept as the
  instant in milliseconds that the ISO string denotes.\<close>

record ChatResponse =
  resp_message :: string
  resp_context_id :: string
  resp_timestamp :: int

text \<open>The errors with which the provider rejects a promise: \<^verbatim>\<open>'WebSocket not connected'\<close>,
  \<^verbatim>\<open>'Message timeout'\<close>, \<^verbatim>\<open>'Message expired'\<close>, and a failed HTTP request.\<close>

datatype failure = NotConnected | MessageTimeout | MessageExpired | HttpError

datatype outcome = Fulfilled ChatResponse | Rejected failure

text \<open>A frame written with \<^verbatim>\<open>ws.send\<close>: the chat frame
  \<^verbatim>\<open>{type: 'chat', data: {...request, context_id: messageId}}\<close> or the heartbeat
  \<^verbatim>\<open>{type: 'ping', timestamp: Date.now()}\<close>.\<close>

datatype frame = Chat ChatRequest | Ping int

text \<open>An inbound frame, by the branch of \<^verbatim>\<open>ws.onmessage\<close> that handles it: text that
  \<^verbatim>\<open>JSON.parse\<close> refuses, a pong, a chat response, a settings update, a service status, or
  any other type.\<close>

datatype inbound =
    Malformed
  | Pong
  | ChatResponseMsg ChatResponse
  | SettingsUpdated string
  | ServiceStatus string
  | OtherMsg string

text \<open>
  What is chained to the promise that \<^verbatim>\<open>sendMessageInternal\<close> returns. Every call of
  \<^verbatim>\<open>sendMessage\<close> returns a new promise to its caller; the call and that promise are named
  by a number \<open>c\<close>. \<open>Direct c req cs\<close> is the rest of
  \<^verbatim>\<open>sendMessage\<close> after \<^verbatim>\<open>await sendMessageInternal(request)\<close>, with the
  \<^verbatim>\<open>connectionState\<close> that the closure captured; \<open>Queued c\<close> is
  \<^verbatim>\<open>.then(resolve).catch(reject)\<close> of \<^verbatim>\<open>processMessageQueue\<close>, with the callbacks
  of the queued caller.
\<close>

datatype cont = Direct nat ChatRequest connectionState | Queued nat

text \<open>An entry of \<^verbatim>\<open>messageQueueRef\<close>; \<open>q_caller\<close> stands for its
  \<^verbatim>\<open>resolve\<close>/\<^verbatim>\<open>reject\<close> pair.\<close>

record queued =
  q_request :: ChatRequest
  q_caller :: nat
  q_timestamp :: int

text \<open>A pending timer with the instant from which it may fire: the reconnect timeout, the
  30 second timeout of one message (it holds the message id and the \<^verbatim>\<open>reject\<close> of that
  call's promise), and the heartbeat interval.\<close>

datatype timer = ReconnectTimer int | MessageTimer int string nat | HeartbeatTimer int

fun due :: "timer \<Rightarrow> int" where
  "due (ReconnectTimer d) = d"
| "due (MessageTimer d m p) = d"
| "due (HeartbeatTimer d) = d"

datatype effect =
    Sent nat frame
  | CloseCalled nat "int option"
  | CallerSettled nat outcome
  | HttpPost nat ChatRequest
  | DispatchSettingsUpdated string
  | UpdateServiceStatus string

text \<open>
  The state of one provider. \<open>sockets\<close> holds every \<^verbatim>\<open>WebSocket\<close> object created so far
  with its \<^verbatim>\<open>readyState\<close>; \<open>wsRef\<close> names the one in \<^verbatim>\<open>wsRef.current\<close>.
  \<open>messageCallbacksRef\<close> is the JavaScript \<^verbatim>\<open>Map\<close> from message id to the
  \<^verbatim>\<open>resolve\<close> of a promise, in insertion order; a promise is named by a number, and
  \<open>promises\<close> lists each promise of \<^verbatim>\<open>sendMessageInternal\<close> that is not settled yet with
  what is chained to it. \<open>nextCaller\<close> numbers the calls of \<^verbatim>\<open>sendMessage\<close>.
\<close>

record state =
  isConnected :: bool
  connectionState :: connectionState
  lastMessage :: "inbound option"
  sockets :: "nat \<rightharpoonup> readyState"
  nextSocket :: nat
  wsRef :: "nat option"
  reconnectTimeoutRef :: "nat option"
  heartbeatTimeoutRef :: "nat option"
  messageCallbacksRef :: "(string \<times> nat) list"
  messageQueueRef :: "queued list"
  reconnectAttempts :: nat
  timers :: "nat \<rightharpoonup> timer"
  nextTimer :: nat
  promises :: "(nat \<times> cont) list"
  nextPromise :: nat
  nextCaller :: nat
  httpPending :: "nat list"
  effects :: "effect list"

text \<open>What a turn of the event loop reads from outside: \<^verbatim>\<open>Date.now()\<close>, whether
  \<^verbatim>\<open>new WebSocket(url)\<close> raises, and whether \<^verbatim>\<open>window.electronAPI?.updateServiceStatus\<close>
  is defined.\<close>

record env =
  now :: int
  ctorThrows :: bool
  hasUpdateServiceStatus :: bool

subsection \<open>Constants and pure helpers\<close>

definition maxReconnectAttempts :: nat where
  "maxReconnectAttempts = 10"

text \<open>\<^verbatim>\<open>Math.min(Math.pow(2, reconnectAttempts.current) * 1000, 30000)\<close>, the delay in
  milliseconds computed in \<^verbatim>\<open>ws.onclose\<close> and in the \<^verbatim>\<open>catch\<close> of \<^verbatim>\<open>connect\<close>.\<close>

definition backoffTimeout :: "nat \<Rightarrow> nat" where
  "backoffTimeout attempts = min (2 ^ attempts * 1000) 30000"

text \<open>\<^verbatim>\<open>Number.prototype.toString\<close> on an integer: its decimal digits.\<close>

fun digitsOf :: "nat \<Rightarrow> string" where
  "digitsOf n =
     (if n < 10 then [''0123456789'' ! n]
      else digitsOf (n div 10) @ [''0123456789'' ! (n mod 10)])"

declare digitsOf.simps [simp del]

definition toString :: "int \<Rightarrow> string" where
  "toString i = (if i < 0 then CHR ''-'' # digitsOf (nat (- i)) else digitsOf (nat i))"

text \<open>The response that \<^verbatim>\<open>ws.onclose\<close> hands to every pending callback.\<close>

definition connectionLost :: "int \<Rightarrow> ChatResponse" where
  "connectionLost t =
     \<lparr>resp_message = ''Connection lost'', resp_context_id = '''', resp_timestamp = t\<rparr>"

text \<open>\<^verbatim>\<open>wsRef.current && wsRef.current.readyState\<close>.\<close>

definition currentReadyState :: "state \<Rightarrow> readyState option" where
  "currentReadyState s = (case wsRef s of None \<Rightarrow> None | Some w \<Rightarrow> sockets s w)"

subsection \<open>Primitive effects\<close>

text \<open>The promise returned to caller \<open>c\<close> settles.\<close>

definition settleCaller :: "nat \<Rightarrow> outcome \<Rightarrow> state \<Rightarrow> state" where
  "settleCaller c out s = s\<lparr>effects := effects s @ [CallerSettled c out]\<rparr>"

text \<open>\<^verbatim>\<open>setTimeout\<close>/\<^verbatim>\<open>setInterval\<close>: the handle returned is \<open>nextTimer s\<close>.\<close>

definition setTimer :: "timer \<Rightarrow> state \<Rightarrow> state" where
  "setTimer t s = s\<lparr>timers := (timers s)(nextTimer s \<mapsto> t), nextTimer := Suc (nextTimer s)\<rparr>"

text \<open>\<^verbatim>\<open>clearTimeout\<close>/\<^verbatim>\<open>clearInterval\<close>.\<close>

definition clearTimer :: "nat \<Rightarrow> state \<Rightarrow> state" where
  "clearTimer h s = s\<lparr>timers := (timers s)(h := None)\<rparr>"

text \<open>\<^verbatim>\<open>ws.send(frame)\<close> on socket \<open>w\<close>; both call sites are guarded by
  \<^verbatim>\<open>readyState === WebSocket.OPEN\<close>, where the browser transmits the frame.\<close>

definition wsSend :: "nat \<Rightarrow> frame \<Rightarrow> state \<Rightarrow> state" where
  "wsSend w f s = s\<lparr>effects := effects s @ [Sent w f]\<rparr>"

text \<open>\<^verbatim>\<open>ws.close(code?)\<close> on socket \<open>w\<close>: a connecting or open socket becomes
  \<^verbatim>\<open>CLOSING\<close>; its \<^verbatim>\<open>close\<close> event comes in a later turn.\<close>

definition wsClose :: "nat \<Rightarrow> int option \<Rightarrow> state \<Rightarrow> state" where
  "wsClose w code s =
     (let s1 = s\<lparr>effects := effects s @ [CloseCalled w code]\<rparr> in
      if sockets s1 w = Some CONNECTING \<or> sockets s1 w = Some OPEN
      then s1\<lparr>sockets := (sockets s1)(w \<mapsto> CLOSING)\<rparr> else s1)"

subsection \<open>Heartbeat\<close>

text \<open>\<^verbatim>\<open>startHeartbeat\<close>: clear a running interval, then start the 30 second one.\<close>

definition startHeartbeat :: "env \<Rightarrow> state \<Rightarrow> state" where
  "startHeartbeat e s =
     (let s1 = (case heartbeatTimeoutRef s of Some h \<Rightarrow> clearTimer h s | None \<Rightarrow> s)
      in (setTimer (HeartbeatTimer (now e + 30000)) s1)\<lparr>heartbeatTimeoutRef := Some (nextTimer s1)\<rparr>)"

text \<open>The callback of that interval.\<close>

definition heartbeatTick :: "env \<Rightarrow> state \<Rightarrow> state" where
  "heartbeatTick e s =
     (case wsRef s of
        None \<Rightarrow> s
      | Some w \<Rightarrow> if sockets s w = Some OPEN then wsSend w (Ping (now e)) s else s)"

definition stopHeartbeat :: "state \<Rightarrow> state" where
  "stopHeartbeat s =
     (case heartbeatTimeoutRef s of
        Some h \<Rightarrow> (clearTimer h s)\<lparr>heartbeatTimeoutRef := None\<rparr>
      | None \<Rightarrow> s)"

subsection \<open>Connecting\<close>

text \<open>\<^verbatim>\<open>connect\<close>. When the constructor raises, \<^verbatim>\<open>wsRef.current\<close> keeps its value and
  the \<^verbatim>\<open>catch\<close> block runs.\<close>

definition connect :: "env \<Rightarrow> state \<Rightarrow> state" where
  "connect e s =
     (if currentReadyState s = Some CONNECTING then s
      else
        let s1 = s\<lparr>connectionState := Connecting\<rparr> in
        if ctorThrows e then
          let s2 = s1\<lparr>connectionState := Error\<rparr> in
          if reconnectAttempts s2 < maxReconnectAttempts then
            (setTimer (ReconnectTimer (now e + int (backoffTimeout (reconnectAttempts s2)))) s2)
              \<lparr>reconnectTimeoutRef := Some (nextTimer s2)\<rparr>
          else s2
        else
          s1\<lparr>sockets := (sockets s1)(nextSocket s1 \<mapsto> CONNECTING),
             wsRef := Some (nextSocket s1),
             nextSocket := Suc (nextSocket s1)\<rparr>)"

text \<open>\<^verbatim>\<open>reconnect\<close>, the function exported to callers.\<close>

definition reconnect :: "env \<Rightarrow> state \<Rightarrow> state" where
  "reconnect e s =
     (let s1 = (case reconnectTimeoutRef s of
                  Some h \<Rightarrow> (clearTimer h s)\<lparr>reconnectTimeoutRef := None\<rparr>
                | None \<Rightarrow> s);
          s2 = s1\<lparr>reconnectAttempts := 0\<rparr>;
          s3 = (case wsRef s2 of Some w \<Rightarrow> wsClose w None s2 | None \<Rightarrow> s2)
      in connect e s3)"

subsection \<open>Sending\<close>

text \<open>\<^verbatim>\<open>sendHttpMessage\<close> for caller \<open>c\<close>: the request is posted; its answer comes in a
  later turn.\<close>

definition sendHttpMessage :: "nat \<Rightarrow> ChatRequest \<Rightarrow> state \<Rightarrow> state" where
  "sendHttpMessage c req s =
     s\<lparr>httpPending := httpPending s @ [c], effects := effects s @ [HttpPost c req]\<rparr>"

text \<open>\<^verbatim>\<open>messageQueueRef.current.push({request, resolve, reject, timestamp: Date.now()})\<close>.\<close>

definition enqueue :: "env \<Rightarrow> nat \<Rightarrow> ChatRequest \<Rightarrow> state \<Rightarrow> state" where
  "enqueue e c req s =
     s\<lparr>messageQueueRef := messageQueueRef s @
          [\<lparr>q_request = req, q_caller = c, q_timestamp = now e\<rparr>]\<rparr>"

text \<open>The body of \<^verbatim>\<open>sendMessage\<close> after its first \<^verbatim>\<open>if\<close>, for the
  \<^verbatim>\<open>connectionState\<close> \<open>cs\<close> that the closure holds.\<close>

definition sendMessageRest :: "env \<Rightarrow> nat \<Rightarrow> ChatRequest \<Rightarrow> connectionState \<Rightarrow> state \<Rightarrow> state" where
  "sendMessageRest e c req cs s =
     (if cs = Connecting then enqueue e c req s
      else if cs = Disconnected \<or> cs = Error then enqueue e c req (reconnect e s)
      else sendHttpMessage c req s)"

text \<open>What runs when a promise of \<^verbatim>\<open>sendMessageInternal\<close> settles.\<close>

fun runCont :: "env \<Rightarrow> cont \<Rightarrow> outcome \<Rightarrow> state \<Rightarrow> state" where
  "runCont e (Queued c) out s = settleCaller c out s"
| "runCont e (Direct c req cs) (Fulfilled r) s = settleCaller c (Fulfilled r) s"
| "runCont e (Direct c req cs) (Rejected f) s = sendMessageRest e c req cs s"

text \<open>A call of the \<^verbatim>\<open>resolve\<close> or \<^verbatim>\<open>reject\<close> of promise \<open>p\<close>: a promise settles
  once, and a later call does nothing.\<close>

definition settlePromise :: "env \<Rightarrow> nat \<Rightarrow> outcome \<Rightarrow> state \<Rightarrow> state" where
  "settlePromise e p out s =
     (case map_of (promises s) p of
        None \<Rightarrow> s
      | Some k \<Rightarrow> runCont e k out (s\<lparr>promises := AList.delete p (promises s)\<rparr>))"

text \<open>\<^verbatim>\<open>sendMessageInternal(request)\<close> with \<open>k\<close> chained to the promise it returns.\<close>

definition sendMessageInternal :: "env \<Rightarrow> cont \<Rightarrow> ChatRequest \<Rightarrow> state \<Rightarrow> state" where
  "sendMessageInternal e k req s =
     (case wsRef s of
        None \<Rightarrow> runCont e k (Rejected NotConnected) s
      | Some w \<Rightarrow>
          if sockets s w \<noteq> Some OPEN then runCont e k (Rejected NotConnected) s
          else
            let messageId = toString (now e);
                p = nextPromise s;
                s1 = s\<lparr>promises := AList.update p k (promises s), nextPromise := Suc p\<rparr>;
                s2 = s1\<lparr>messageCallbacksRef := AList.update messageId p (messageCallbacksRef s1)\<rparr>;
                s3 = setTimer (MessageTimer (now e + 30000) messageId p) s2
            in wsSend w (Chat (req\<lparr>context_id := Some messageId\<rparr>)) s3)"

text \<open>\<^verbatim>\<open>sendMessage(request)\<close>: the call gets the number \<open>nextCaller s\<close>.\<close>

definition sendMessage :: "env \<Rightarrow> ChatRequest \<Rightarrow> state \<Rightarrow> state" where
  "sendMessage e req s =
     (let c = nextCaller s;
          s1 = s\<lparr>nextCaller := Suc c\<rparr>
      in if currentReadyState s1 = Some OPEN
         then sendMessageInternal e (Direct c req (connectionState s1)) req s1
         else sendMessageRest e c req (connectionState s1) s1)"

subsection \<open>Draining the queue\<close>

text \<open>The \<^verbatim>\<open>forEach\<close> of \<^verbatim>\<open>processMessageQueue\<close> over the copied queue.\<close>

fun drainMessages :: "env \<Rightarrow> queued list \<Rightarrow> state \<Rightarrow> state" where
  "drainMessages e [] s = s"
| "drainMessages e (q # qs) s =
     drainMessages e qs
       (if now e - q_timestamp q > 300000
        then settleCaller (q_caller q) (Rejected MessageExpired) s
        else sendMessageInternal e (Queued (q_caller q)) (q_request q) s)"

definition processMessageQueue :: "env \<Rightarrow> state \<Rightarrow> state" where
  "processMessageQueue e s =
     (if currentReadyState s \<noteq> Some OPEN then s
      else drainMessages e (messageQueueRef s) (s\<lparr>messageQueueRef := []\<rparr>))"

subsection \<open>The handlers of a socket\<close>

definition onopen :: "env \<Rightarrow> state \<Rightarrow> state" where
  "onopen e s =
     (let s1 = s\<lparr>isConnected := True, connectionState := Connected, reconnectAttempts := 0\<rparr>;
          s2 = (case reconnectTimeoutRef s1 of
                  Some h \<Rightarrow> (clearTimer h s1)\<lparr>reconnectTimeoutRef := None\<rparr>
                | None \<Rightarrow> s1)
      in startHeartbeat e (processMessageQueue e s2))"

definition onmessage :: "env \<Rightarrow> inbound \<Rightarrow> state \<Rightarrow> state" where
  "onmessage e d s =
     (case d of
        Malformed \<Rightarrow> s
      | Pong \<Rightarrow> s
      | ChatResponseMsg r \<Rightarrow>
          (let s1 = s\<lparr>lastMessage := Some d\<rparr> in
           case map_of (messageCallbacksRef s1) (resp_context_id r) of
             Some p \<Rightarrow>
               (let s2 = settlePromise e p (Fulfilled r) s1
                in s2\<lparr>messageCallbacksRef :=
                        AList.delete (resp_context_id r) (messageCallbacksRef s2)\<rparr>)
           | None \<Rightarrow> s1)
      | SettingsUpdated x \<Rightarrow>
          s\<lparr>lastMessage := Some d, effects := effects s @ [DispatchSettingsUpdated x]\<rparr>
      | ServiceStatus x \<Rightarrow>
          (if hasUpdateServiceStatus e
           then s\<lparr>lastMessage := Some d, effects := effects s @ [UpdateServiceStatus x]\<rparr>
           else s\<lparr>lastMessage := Some d\<rparr>)
      | OtherMsg x \<Rightarrow> s\<lparr>lastMessage := Some d\<rparr>)"

text \<open>The \<^verbatim>\<open>forEach\<close> of \<^verbatim>\<open>ws.onclose\<close> over the pending callbacks.\<close>

fun failPending :: "env \<Rightarrow> (string \<times> nat) list \<Rightarrow> state \<Rightarrow> state" where
  "failPending e [] s = s"
| "failPending e ((m, p) # rest) s =
     failPending e rest (settlePromise e p (Fulfilled (connectionLost (now e))) s)"

definition onclose :: "env \<Rightarrow> int \<Rightarrow> state \<Rightarrow> state" where
  "onclose e code s =
     (let s1 = s\<lparr>isConnected := False, connectionState := Disconnected, wsRef := None\<rparr>;
          s2 = stopHeartbeat s1;
          s3 = failPending e (messageCallbacksRef s2) s2;
          s4 = s3\<lparr>messageCallbacksRef := []\<rparr>
      in if code \<noteq> 1000 \<and> reconnectAttempts s4 < maxReconnectAttempts then
           (setTimer (ReconnectTimer (now e + int (backoffTimeout (reconnectAttempts s4)))) s4)
             \<lparr>reconnectTimeoutRef := Some (nextTimer s4)\<rparr>
         else if reconnectAttempts s4 \<ge> maxReconnectAttempts then
           s4\<lparr>connectionState := Error\<rparr>
         else s4)"

definition onerror :: "state \<Rightarrow> state" where
  "onerror s = s\<lparr>connectionState := Error\<rparr>"

subsection \<open>Timers\<close>

text \<open>Timer \<open>h\<close> fires, if it is pending and due. A timeout fires once, the heartbeat
  interval stays armed.\<close>

definition fireTimer :: "env \<Rightarrow> nat \<Rightarrow> state \<Rightarrow> state" where
  "fireTimer e h s =
     (case timers s h of
        None \<Rightarrow> s
      | Some t \<Rightarrow>
          if now e < due t then s
          else
            (case t of
               ReconnectTimer d \<Rightarrow>
                 (let s1 = clearTimer h s
                  in connect e (s1\<lparr>reconnectAttempts := Suc (reconnectAttempts s1)\<rparr>))
             | MessageTimer d m p \<Rightarrow>
                 (let s1 = clearTimer h s
                  in if map_of (messageCallbacksRef s1) m \<noteq> None then
                       settlePromise e p (Rejected MessageTimeout)
                         (s1\<lparr>messageCallbacksRef := AList.delete m (messageCallbacksRef s1)\<rparr>)
                     else s1)
             | HeartbeatTimer d \<Rightarrow>
                 heartbeatTick e (s\<lparr>timers := (timers s)(h \<mapsto> HeartbeatTimer (now e + 30000))\<rparr>)))"

subsection \<open>The event loop\<close>

text \<open>
  One turn of the event loop. The socket events follow the WebSocket interface of the
  browser: \<^verbatim>\<open>open\<close> comes to a connecting socket and makes it \<^verbatim>\<open>OPEN\<close>, \<^verbatim>\<open>message\<close> comes
  to an open socket, \<^verbatim>\<open>close\<close> comes once to a socket and makes it \<^verbatim>\<open>CLOSED\<close>. The
  handlers installed by \<^verbatim>\<open>connect\<close> are the same for every socket. \<open>Mount\<close> and
  \<open>Unmount\<close> are the effect of \<^verbatim>\<open>useEffect\<close> and its cleanup.
\<close>

datatype event =
    WsOpen nat
  | WsMessage nat inbound
  | WsClose nat int
  | WsError nat
  | TimerFires nat
  | CallSendMessage ChatRequest
  | CallReconnect
  | HttpDone nat "ChatResponse option"
  | Mount
  | Unmount

fun step :: "env \<Rightarrow> event \<Rightarrow> state \<Rightarrow> state" where
  "step e (WsOpen w) s =
     (if sockets s w = Some CONNECTING
      then onopen e (s\<lparr>sockets := (sockets s)(w \<mapsto> OPEN)\<rparr>) else s)"
| "step e (WsMessage w d) s =
     (if sockets s w = Some OPEN then onmessage e d s else s)"
| "step e (WsClose w code) s =
     (if sockets s w = None \<or> sockets s w = Some CLOSED then s
      else onclose e code (s\<lparr>sockets := (sockets s)(w \<mapsto> CLOSED)\<rparr>))"
| "step e (WsError w) s = (if sockets s w = None then s else onerror s)"
| "step e (TimerFires h) s = fireTimer e h s"
| "step e (CallSendMessage req) s = sendMessage e req s"
| "step e CallReconnect s = reconnect e s"
| "step e (HttpDone c res) s =
     (if c \<in> set (httpPending s)
      then settleCaller c (case res of Some r \<Rightarrow> Fulfilled r | None \<Rightarrow> Rejected HttpError)
             (s\<lparr>httpPending := remove1 c (httpPending s)\<rparr>)
      else s)"
| "step e Mount s = connect e s"
| "step e Unmount s =
     (let s1 = (case reconnectTimeoutRef s of Some h \<Rightarrow> clearTimer h s | None \<Rightarrow> s);
          s2 = stopHeartbeat s1
      in case wsRef s2 of Some w \<Rightarrow> wsClose w (Some 1000) s2 | None \<Rightarrow> s2)"

fun run :: "(env \<times> event) list \<Rightarrow> state \<Rightarrow> state" where
  "run [] s = s"
| "run ((e, ev) # rest) s = run rest (step e ev s)"

text \<open>The provider before its first effect runs.\<close>

definition initial :: state where
  "initial =
     \<lparr>isConnected = False, connectionState = Disconnected, lastMessage = None,
      sockets = Map.empty, nextSocket = 0, wsRef = None,
      reconnectTimeoutRef = None, heartbeatTimeoutRef = None,
      messageCallbacksRef = [], messageQueueRef = [], reconnectAttempts = 0,
      timers = Map.empty, nextTimer = 0, promises = [], nextPromise = 0, nextCaller = 0,
      httpPending = [], effects = []\<rparr>"

subsection \<open>Notions used in the statements\<close>

text \<open>The caller whose promise a continuation settles.\<close>

fun callerOf :: "cont \<Rightarrow> nat" where
  "callerOf (Direct c req cs) = c"
| "callerOf (Queued c) = c"

text \<open>The test \<^verbatim>\<open>Date.now() - timestamp > 300000\<close> of \<^verbatim>\<open>processMessageQueue\<close>.\<close>

definition isExpired :: "env \<Rightarrow> queued \<Rightarrow> bool" where
  "isExpired e q = (now e - q_timestamp q > 300000)"

text \<open>The frame that \<^verbatim>\<open>sendMessageInternal\<close> writes for a queued request in the turn \<open>e\<close>.\<close>

definition chatFrame :: "env \<Rightarrow> queued \<Rightarrow> frame" where
  "chatFrame e q = Chat ((q_request q)\<lparr>context_id := Some (toString (now e))\<rparr>)"

text \<open>What the drain on socket \<open>w\<close> does with one queued message.\<close>

definition drainEffect :: "env \<Rightarrow> nat \<Rightarrow> queued \<Rightarrow> effect" where
  "drainEffect e w q =
     (if isExpired e q then CallerSettled (q_caller q) (Rejected MessageExpired)
      else Sent w (chatFrame e q))"

text \<open>The frames written to socket \<open>w\<close>, in order.\<close>

fun sentOn :: "nat \<Rightarrow> effect list \<Rightarrow> frame list" where
  "sentOn w [] = []"
| "sentOn w (Sent w' f # xs) = (if w' = w then f # sentOn w xs else sentOn w xs)"
| "sentOn w (x # xs) = sentOn w xs"

text \<open>The callers whose promise has settled, in order.\<close>

fun settledCallers :: "effect list \<Rightarrow> nat list" where
  "settledCallers [] = []"
| "settledCallers (CallerSettled c out # xs) = c # settledCallers xs"
| "settledCallers (x # xs) = settledCallers xs"

text \<open>
  A request that waits for its answer. \<open>carries m p t\<close> says that the pending timer \<open>t\<close>
  is the 30 second timeout of a message with the id \<open>m\<close>, or the one that rejects promise
  \<open>p\<close>; \<open>timersFor s m p\<close> lists the handles of these timers. \<open>pendingUnder s m p k h d\<close>
  says that the table maps the id \<open>m\<close> to promise \<open>p\<close>, that \<open>p\<close> is not settled and
  has \<open>k\<close> chained to it, that timer \<open>h\<close> is its timeout, due at \<open>d\<close>, and that no other
  pending timeout has the same id or the same promise.
\<close>

fun carries :: "string \<Rightarrow> nat \<Rightarrow> timer option \<Rightarrow> bool" where
  "carries m p (Some (MessageTimer d m' p')) = (m' = m \<or> p' = p)"
| "carries m p (Some (ReconnectTimer d)) = False"
| "carries m p (Some (HeartbeatTimer d)) = False"
| "carries m p None = False"





subsection \<open>Invariants\<close>

text \<open>The ids of the table of pending requests are pairwise distinct.\<close>

definition tableOK :: "state \<Rightarrow> bool" where
  "tableOK s = distinct (map fst (messageCallbacksRef s))"






text \<open>
  Handles are given out once. \<open>handlesOK\<close> says that every pending timer has a handle below
  \<open>nextTimer\<close> and every pending promise a number below \<open>nextPromise\<close>, that a message
  timeout names a promise below \<open>nextPromise\<close>, that the two timer refs do not hold the
  handle of a message timeout, and that every entry of the table still has its timeout
  pending. \<open>coherent L m p k h d\<close> adds, when \<open>L\<close> holds, that the request \<open>p\<close> is pending
  under the id \<open>m\<close> as in \<open>pendingUnder\<close>, with no bound on the handles.
\<close>

fun isMessageTimer :: "timer option \<Rightarrow> bool" where
  "isMessageTimer (Some (MessageTimer d m p)) = True"
| "isMessageTimer (Some (ReconnectTimer d)) = False"
| "isMessageTimer (Some (HeartbeatTimer d)) = False"
| "isMessageTimer None = False"

definition handlesOK :: "state \<Rightarrow> bool" where
  "handlesOK s =
     ((\<forall>h. timers s h \<noteq> None \<longrightarrow> h < nextTimer s)
      \<and> (\<forall>p \<in> fst ` set (promises s). p < nextPromise s)
      \<and> (\<forall>h d m p. timers s h = Some (MessageTimer d m p) \<longrightarrow> p < nextPromise s)
      \<and> (\<forall>h. reconnectTimeoutRef s = Some h \<longrightarrow> h < nextTimer s \<and> \<not> isMessageTimer (timers s h))
      \<and> (\<forall>h. heartbeatTimeoutRef s = Some h \<longrightarrow> h < nextTimer s \<and> \<not> isMessageTimer (timers s h))
      \<and> (\<forall>m p. (m, p) \<in> set (messageCallbacksRef s) \<longrightarrow>
            (\<exists>h d. timers s h = Some (MessageTimer d m p))))"

definition coherent :: "bool \<Rightarrow> string \<Rightarrow> nat \<Rightarrow> cont \<Rightarrow> nat \<Rightarrow> int \<Rightarrow> state \<Rightarrow> bool" where
  "coherent L m p k h d s =
     (handlesOK s
      \<and> (L \<longrightarrow> map_of (messageCallbacksRef s) m = Some p
              \<and> map_of (promises s) p = Some k
              \<and> timers s h = Some (MessageTimer d m p)
              \<and> (\<forall>h'. carries m p (timers s h') \<longrightarrow> h' = h)))"

subsection \<open>Concrete runs\<close>

text \<open>The turn at time \<open>t\<close> in which the constructor does not raise; the preload script
  of the application exposes no \<^verbatim>\<open>updateServiceStatus\<close>.\<close>

definition at :: "int \<Rightarrow> env" where
  "at t = \<lparr>now = t, ctorThrows = False, hasUpdateServiceStatus = False\<rparr>"

definition requestA :: ChatRequest where
  "requestA = \<lparr>message = ''A'', include_audio = Some True, audio_data = None, context_id = None\<rparr>"

definition requestB :: ChatRequest where
  "requestB = \<lparr>message = ''B'', include_audio = Some True, audio_data = None, context_id = None\<rparr>"

text \<open>The provider is mounted and its first socket has opened.\<close>

definition connectedState :: state where
  "connectedState = run [(at 0, Mount), (at 5, WsOpen 0)] initial"

definition responseR :: ChatResponse where
  "responseR = \<lparr>resp_message = ''answer'', resp_context_id = ''1000'', resp_timestamp = 1005\<rparr>"

text \<open>The provider is mounted and its first socket is still connecting.\<close>

definition connectingState :: state where
  "connectingState = run [(at 0, Mount)] initial"

text \<open>The first connection attempt has failed: the socket closed with code 1006.\<close>

definition disconnectedState :: state where
  "disconnectedState = run [(at 0, Mount), (at 5, WsClose 0 1006)] initial"

text \<open>Request A is sent over the open socket at time 1000.\<close>

definition sentState :: state where
  "sentState = run [(at 1000, CallSendMessage requestA)] connectedState"

text \<open>Requests A and B are sent over the open socket within the same millisecond.\<close>

definition duplicateRun :: state where
  "duplicateRun =
     run [(at 1000, CallSendMessage requestA), (at 1000, CallSendMessage requestB)] connectedState"

text \<open>Then one response with the id 1000 arrives, and both message timers fire.\<close>

definition collidedRun :: state where
  "collidedRun =
     run [(at 1010, WsMessage 0 (ChatResponseMsg responseR)),
          (at 31000, TimerFires 1), (at 31000, TimerFires 2)] duplicateRun"

text \<open>The socket closes abnormally while request A is pending.\<close>

definition lostRun :: state where
  "lostRun = run [(at 2000, WsClose 0 1006)] sentState"

text \<open>No response comes for request A, and its timer fires at the deadline.\<close>

definition timeoutRun :: state where
  "timeoutRun = run [(at 31000, TimerFires 1)] sentState"

text \<open>Requests A and B are submitted while the first socket is connecting.\<close>

definition queuedState :: state where
  "queuedState =
     run [(at 0, Mount), (at 0, CallSendMessage requestA), (at 200000, CallSendMessage requestB)]
       initial"

text \<open>The server cannot be reached: request A is queued at time 0, and every connection
  attempt fails after 60 seconds; each reconnect timer fires when it is due.\<close>

definition staleRun :: state where
  "staleRun =
     run [(at 0, Mount), (at 0, CallSendMessage requestA),
          (at 60000, WsClose 0 1006), (at 61000, TimerFires 0),
          (at 121000, WsClose 1 1006), (at 123000, TimerFires 1),
          (at 183000, WsClose 2 1006), (at 187000, TimerFires 2),
          (at 247000, WsClose 3 1006), (at 255000, TimerFires 3),
          (at 315000, WsClose 4 1006)] initial"

text \<open>The queue of \<open>queuedState\<close> at the moment when its socket has become open.\<close>

definition queuedOpenState :: state where
  "queuedOpenState = queuedState\<lparr>sockets := (sockets queuedState)(0 \<mapsto> OPEN)\<rparr>"

text \<open>Over the open socket the caller asks for a reconnect and then submits request A; the
  old socket's \<^verbatim>\<open>close\<close> event comes before the new socket has opened.\<close>

definition orphanedState :: state where
  "orphanedState =
     run [(at 10, CallReconnect), (at 11, CallSendMessage requestA), (at 12, WsClose 0 1005)]
       connectedState"

text \<open>The turn at time \<open>t\<close> in which \<^verbatim>\<open>new WebSocket(url)\<close> raises.\<close>

definition failingCtor :: "int \<Rightarrow> env" where
  "failingCtor t = \<lparr>now = t, ctorThrows = True, hasUpdateServiceStatus = False\<rparr>"

text \<open>No response comes for request A; its timer fires at the deadline, and the HTTP request
  that replaces it fails.\<close>

definition fallbackFailedRun :: state where
  "fallbackFailedRun = run [(at 31000, TimerFires 1), (at 31400, HttpDone 0 None)] sentState"

section \<open>Properties\<close>

subsection \<open>Evaluation\<close>

text \<open>The definitions of the model and of the concrete runs, for evaluating a run by
  rewriting.\<close>

lemmas model_defs =
  connect_def reconnect_def onopen_def onclose_def onerror_def onmessage_def fireTimer_def
  sendMessage_def sendMessageInternal_def sendMessageRest_def processMessageQueue_def
  settlePromise_def settleCaller_def setTimer_def clearTimer_def wsSend_def wsClose_def
  startHeartbeat_def stopHeartbeat_def heartbeatTick_def currentReadyState_def
  enqueue_def sendHttpMessage_def backoffTimeout_def maxReconnectAttempts_def
  connectionLost_def toString_def digitsOf.simps isExpired_def chatFrame_def
  initial_def at_def Let_def

lemmas run_defs =
  connectedState_def connectingState_def disconnectedState_def sentState_def duplicateRun_def
  collidedRun_def lostRun_def timeoutRun_def queuedState_def staleRun_def queuedOpenState_def
  orphanedState_def fallbackFailedRun_def failingCtor_def
  requestA_def requestB_def responseR_def

subsection \<open>Backoff\<close>

lemma backoffTimeout_mono: "a \<le> b \<Longrightarrow> backoffTimeout a \<le> backoffTimeout b"
proof -
  assume "a \<le> b"
  then have "(2::nat) ^ a \<le> 2 ^ b" by (simp add: power_increasing)
  then have "2 ^ a * 1000 \<le> (2::nat) ^ b * 1000" by simp
  then have "min (2 ^ a * 1000) 30000 \<le> min ((2::nat) ^ b * 1000) 30000"
    by (rule min.mono) simp
  then show ?thesis unfolding backoffTimeout_def .
qed


subsection \<open>The handlers, step by step\<close>

lemma sentOn_append: "sentOn w (xs @ ys) = sentOn w xs @ sentOn w ys"
  by (induction w xs rule: sentOn.induct) auto

lemma sendMessageInternal_Queued:
  "sendMessageInternal e (Queued c) req s =
     (case wsRef s of
        None \<Rightarrow> settleCaller c (Rejected NotConnected) s
      | Some w \<Rightarrow>
          if sockets s w \<noteq> Some OPEN then settleCaller c (Rejected NotConnected) s
          else s\<lparr>promises := AList.update (nextPromise s) (Queued c) (promises s),
                 nextPromise := Suc (nextPromise s),
                 messageCallbacksRef := AList.update (toString (now e)) (nextPromise s) (messageCallbacksRef s),
                 timers := (timers s)(nextTimer s \<mapsto> MessageTimer (now e + 30000) (toString (now e)) (nextPromise s)),
                 nextTimer := Suc (nextTimer s),
                 effects := effects s @ [Sent w (Chat (req\<lparr>context_id := Some (toString (now e))\<rparr>))]\<rparr>)"
  by (simp add: sendMessageInternal_def Let_def setTimer_def wsSend_def split: option.splits)

lemma drain_step_frame:
  "wsRef (sendMessageInternal e (Queued c) req s) = wsRef s"
  "sockets (sendMessageInternal e (Queued c) req s) = sockets s"
  "messageQueueRef (sendMessageInternal e (Queued c) req s) = messageQueueRef s"
  "reconnectAttempts (sendMessageInternal e (Queued c) req s) = reconnectAttempts s"
  "heartbeatTimeoutRef (sendMessageInternal e (Queued c) req s) = heartbeatTimeoutRef s"
  "reconnectTimeoutRef (sendMessageInternal e (Queued c) req s) = reconnectTimeoutRef s"
  "connectionState (sendMessageInternal e (Queued c) req s) = connectionState s"
  "isConnected (sendMessageInternal e (Queued c) req s) = isConnected s"
  by (simp_all add: sendMessageInternal_Queued settleCaller_def split: option.splits)

lemma drainMessages_frame:
  "wsRef (drainMessages e qs s) = wsRef s"
  "sockets (drainMessages e qs s) = sockets s"
  "messageQueueRef (drainMessages e qs s) = messageQueueRef s"
  "reconnectAttempts (drainMessages e qs s) = reconnectAttempts s"
  "heartbeatTimeoutRef (drainMessages e qs s) = heartbeatTimeoutRef s"
  "reconnectTimeoutRef (drainMessages e qs s) = reconnectTimeoutRef s"
  "connectionState (drainMessages e qs s) = connectionState s"
  "isConnected (drainMessages e qs s) = isConnected s"
  by (induction qs arbitrary: s; simp add: drain_step_frame settleCaller_def)+


lemma drainMessages_effects:
  "wsRef s = Some w \<Longrightarrow> sockets s w = Some OPEN \<Longrightarrow>
   effects (drainMessages e qs s) = effects s @ map (drainEffect e w) qs"
proof (induction qs arbitrary: s)
  case Nil
  then show ?case by simp
next
  case (Cons q qs)
  let ?s' = "(if now e - q_timestamp q > 300000
        then settleCaller (q_caller q) (Rejected MessageExpired) s
        else sendMessageInternal e (Queued (q_caller q)) (q_request q) s)"
  have w: "wsRef ?s' = Some w" "sockets ?s' w = Some OPEN"
    using Cons.prems by (simp_all add: drain_step_frame settleCaller_def)
  have eff: "effects ?s' = effects s @ [drainEffect e w q]"
    using Cons.prems
    by (simp add: sendMessageInternal_Queued settleCaller_def drainEffect_def isExpired_def chatFrame_def)
  show ?case using Cons.IH [OF w] eff by simp
qed

lemma sentOn_drain:
  "sentOn w (map (drainEffect e w) qs) = map (chatFrame e) (filter (\<lambda>q. \<not> isExpired e q) qs)"
  by (induction qs) (auto simp: drainEffect_def)

text \<open>
  What \<^verbatim>\<open>ws.onopen\<close> does when the socket that opens is the one in \<^verbatim>\<open>wsRef.current\<close>: in
  that turn it resets the reconnect counter to 0, sets the state to connected, empties the
  outbound queue in one step and writes to the socket exactly the queued requests that are
  not older than 300000 ms, in their enqueue order (an expired one is rejected instead), and
  starts the heartbeat interval.
\<close>

lemma handshake_success_transition:
  assumes "wsRef s = Some w" and "sockets s w = Some CONNECTING"
  shows "reconnectAttempts (step e (WsOpen w) s) = 0
       \<and> connectionState (step e (WsOpen w) s) = Connected
       \<and> messageQueueRef (step e (WsOpen w) s) = []
       \<and> effects (step e (WsOpen w) s) = effects s @ map (drainEffect e w) (messageQueueRef s)
       \<and> sentOn w (effects (step e (WsOpen w) s)) =
           sentOn w (effects s) @ map (chatFrame e) (filter (\<lambda>q. \<not> isExpired e q) (messageQueueRef s))
       \<and> (\<exists>h. heartbeatTimeoutRef (step e (WsOpen w) s) = Some h
              \<and> timers (step e (WsOpen w) s) h = Some (HeartbeatTimer (now e + 30000)))"
proof -
  define s1 where "s1 = s\<lparr>sockets := (sockets s)(w \<mapsto> OPEN)\<rparr>"
  define s2 where "s2 = s1\<lparr>isConnected := True, connectionState := Connected, reconnectAttempts := 0\<rparr>"
  define s3 where "s3 = (case reconnectTimeoutRef s2 of
                  Some h \<Rightarrow> (clearTimer h s2)\<lparr>reconnectTimeoutRef := None\<rparr>
                | None \<Rightarrow> s2)"
  define s4 where "s4 = drainMessages e (messageQueueRef s3) (s3\<lparr>messageQueueRef := []\<rparr>)"
  have st: "step e (WsOpen w) s = startHeartbeat e s4"
    using assms
    by (simp add: onopen_def processMessageQueue_def currentReadyState_def s1_def s2_def s3_def s4_def
          clearTimer_def Let_def split: option.splits)
  have s3f: "wsRef s3 = Some w" "sockets s3 w = Some OPEN" "messageQueueRef s3 = messageQueueRef s"
     "effects s3 = effects s" "reconnectAttempts s3 = 0" "connectionState s3 = Connected"
    using assms by (simp_all add: s3_def s2_def s1_def clearTimer_def split: option.splits)
  have s4e: "effects s4 = effects s @ map (drainEffect e w) (messageQueueRef s)"
    unfolding s4_def using s3f by (subst drainMessages_effects [where w = w]) simp_all
  have s4f: "reconnectAttempts s4 = 0" "connectionState s4 = Connected" "messageQueueRef s4 = []"
    unfolding s4_def using s3f by (simp_all add: drainMessages_frame)
  have hb: "reconnectAttempts (startHeartbeat e t) = reconnectAttempts t"
     "connectionState (startHeartbeat e t) = connectionState t"
     "messageQueueRef (startHeartbeat e t) = messageQueueRef t"
     "effects (startHeartbeat e t) = effects t"
     "\<exists>h. heartbeatTimeoutRef (startHeartbeat e t) = Some h
          \<and> timers (startHeartbeat e t) h = Some (HeartbeatTimer (now e + 30000))" for t
    by (simp_all add: startHeartbeat_def setTimer_def clearTimer_def Let_def split: option.splits)
  show ?thesis
    unfolding st using hb s4e s4f by (simp add: sentOn_append sentOn_drain)
qed



text \<open>For instance, requests A and B were queued while socket 0 was connecting: when it opens
  they are sent as A, then B.\<close>

lemma handshake_success_transition_queuedState:
  "wsRef queuedState = Some 0
   \<and> sockets queuedState 0 = Some CONNECTING
   \<and> reconnectAttempts (step (at 250000) (WsOpen 0) queuedState) = 0
   \<and> connectionState (step (at 250000) (WsOpen 0) queuedState) = Connected
   \<and> messageQueueRef (step (at 250000) (WsOpen 0) queuedState) = []
   \<and> sentOn 0 (effects (step (at 250000) (WsOpen 0) queuedState)) =
       [Chat (requestA\<lparr>context_id := Some ''250000''\<rparr>),
        Chat (requestB\<lparr>context_id := Some ''250000''\<rparr>)]"
proof -
  let ?qa = "\<lparr>q_request = requestA, q_caller = 0, q_timestamp = 0\<rparr>"
  let ?qb = "\<lparr>q_request = requestB, q_caller = 1, q_timestamp = 200000\<rparr>"
  have h1: "wsRef queuedState = Some 0" by (simp add: run_defs model_defs)
  have h2: "sockets queuedState 0 = Some CONNECTING" by (simp add: run_defs model_defs)
  have qu: "messageQueueRef queuedState = [?qa, ?qb]" by (simp add: run_defs model_defs)
  have ef: "effects queuedState = []" by (simp add: run_defs model_defs)
  have id: "toString 250000 = ''250000''" by (simp add: run_defs model_defs)
  note inst = handshake_success_transition [OF h1 h2, of "at 250000"]
  have a: "reconnectAttempts (step (at 250000) (WsOpen 0) queuedState) = 0"
    by (rule inst [THEN conjunct1])
  have b: "connectionState (step (at 250000) (WsOpen 0) queuedState) = Connected"
    by (rule inst [THEN conjunct2, THEN conjunct1])
  have c: "messageQueueRef (step (at 250000) (WsOpen 0) queuedState) = []"
    by (rule inst [THEN conjunct2, THEN conjunct2, THEN conjunct1])
  have d: "sentOn 0 (effects (step (at 250000) (WsOpen 0) queuedState)) =
       [Chat (requestA\<lparr>context_id := Some ''250000''\<rparr>),
        Chat (requestB\<lparr>context_id := Some ''250000''\<rparr>)]"
    using inst [THEN conjunct2, THEN conjunct2, THEN conjunct2, THEN conjunct2, THEN conjunct1]
    by (simp only: qu ef) (simp add: isExpired_def chatFrame_def at_def id)
  from h1 h2 a b c d show ?thesis by (intro conjI)
qed

text \<open>
  Claim C8. The claim asks that every successful handshake drains the outbound queue. At
  this input the code does otherwise. With socket 0 open the caller calls \<^verbatim>\<open>reconnect\<close>,
  which closes socket 0 and creates socket 1, and request A is queued. The \<^verbatim>\<open>close\<close> event
  of socket 0 arrives first, and its handler sets \<^verbatim>\<open>wsRef.current\<close> to null although the
  ref holds socket 1. When socket 1 then completes its handshake, its handler resets the
  counter, sets the state to connected and starts the heartbeat interval, but its call of
  \<^verbatim>\<open>processMessageQueue\<close> returns at the guard: request A stays in the queue and no frame
  is written.
\<close>

theorem orphaned_open_skips_drain:
  "sockets orphanedState 1 = Some CONNECTING
   \<and> wsRef orphanedState = None
   \<and> messageQueueRef orphanedState = [\<lparr>q_request = requestA, q_caller = 0, q_timestamp = 11\<rparr>]
   \<and> sockets (step (at 13) (WsOpen 1) orphanedState) 1 = Some OPEN
   \<and> connectionState (step (at 13) (WsOpen 1) orphanedState) = Connected
   \<and> reconnectAttempts (step (at 13) (WsOpen 1) orphanedState) = 0
   \<and> messageQueueRef (step (at 13) (WsOpen 1) orphanedState) =
       [\<lparr>q_request = requestA, q_caller = 0, q_timestamp = 11\<rparr>]
   \<and> sentOn 1 (effects (step (at 13) (WsOpen 1) orphanedState)) = []
   \<and> effects (step (at 13) (WsOpen 1) orphanedState) = [CloseCalled 0 None]"
  by (simp add: run_defs model_defs)

lemma settlePromise_Fulfilled:
  "settlePromise e p (Fulfilled r) s =
     (case map_of (promises s) p of
        None \<Rightarrow> s
      | Some k \<Rightarrow> s\<lparr>promises := AList.delete p (promises s),
                    effects := effects s @ [CallerSettled (callerOf k) (Fulfilled r)]\<rparr>)"
proof (cases "map_of (promises s) p")
  case None
  then show ?thesis by (simp add: settlePromise_def)
next
  case (Some k)
  then show ?thesis by (cases k) (simp_all add: settlePromise_def settleCaller_def)
qed

lemma failPending_frame:
  "messageCallbacksRef (failPending e tbl s) = messageCallbacksRef s"
  "reconnectAttempts (failPending e tbl s) = reconnectAttempts s"
  "timers (failPending e tbl s) = timers s"
  "nextTimer (failPending e tbl s) = nextTimer s"
  "reconnectTimeoutRef (failPending e tbl s) = reconnectTimeoutRef s"
  "heartbeatTimeoutRef (failPending e tbl s) = heartbeatTimeoutRef s"
  "wsRef (failPending e tbl s) = wsRef s"
  "sockets (failPending e tbl s) = sockets s"
  "connectionState (failPending e tbl s) = connectionState s"
  "isConnected (failPending e tbl s) = isConnected s"
  "messageQueueRef (failPending e tbl s) = messageQueueRef s"
  by (induction e tbl s rule: failPending.induct;
      simp add: settlePromise_Fulfilled split: option.splits)+






text \<open>
  Claim C4. The claim asks that a pending request is failed when the transport closes. At
  this input the code does otherwise: request A is pending when the socket closes with
  code 1006, and \<^verbatim>\<open>ws.onclose\<close> calls the stored \<^verbatim>\<open>resolve\<close> of the request, so the
  caller's promise is fulfilled with the response \<^verbatim>\<open>'Connection lost'\<close> and is not
  rejected. The rest of the claim holds here: the table is emptied, and a reconnect
  timer with the first backoff delay of 1000 ms is scheduled.
\<close>

theorem connection_loss_fulfils_with_response:
  "effects lostRun =
     [Sent 0 (Chat (requestA\<lparr>context_id := Some ''1000''\<rparr>)),
      CallerSettled 0 (Fulfilled
        \<lparr>resp_message = ''Connection lost'', resp_context_id = '''', resp_timestamp = 2000\<rparr>)]
   \<and> messageCallbacksRef lostRun = []
   \<and> promises lostRun = []
   \<and> connectionState lostRun = Disconnected
   \<and> reconnectTimeoutRef lostRun = Some 2
   \<and> timers lostRun 2 = Some (ReconnectTimer 3000)"
  by (simp add: run_defs model_defs)

text \<open>
  Claim C7. The reconnect delay is a function of the attempt count alone. For every attempt
  count, 0 included, it equals \<open>min(cap, base * 2^attempt)\<close> with base 1000 ms and cap
  30000 ms; it is never zero and never above the cap, and it does not decrease when the
  attempt count grows. It is the delay with which \<^verbatim>\<open>ws.onclose\<close> and the \<^verbatim>\<open>catch\<close> of
  \<^verbatim>\<open>connect\<close> arm the reconnect timer.
\<close>

theorem backoffTimeout_policy:
  "backoffTimeout n = min 30000 (1000 * 2 ^ n)
   \<and> 0 < backoffTimeout n
   \<and> backoffTimeout n \<le> 30000
   \<and> (a \<le> b \<longrightarrow> backoffTimeout a \<le> backoffTimeout b)
   \<and> (code \<noteq> 1000 \<and> reconnectAttempts s < maxReconnectAttempts \<longrightarrow>
        timers (onclose e code s) (nextTimer s) =
          Some (ReconnectTimer (now e + int (backoffTimeout (reconnectAttempts s)))))
   \<and> (currentReadyState s \<noteq> Some CONNECTING \<and> ctorThrows e
        \<and> reconnectAttempts s < maxReconnectAttempts \<longrightarrow>
        timers (connect e s) (nextTimer s) =
          Some (ReconnectTimer (now e + int (backoffTimeout (reconnectAttempts s)))))"
proof -
  have form: "backoffTimeout n = min 30000 (1000 * 2 ^ n)"
    by (simp add: backoffTimeout_def min.commute mult.commute)
  have pos: "0 < backoffTimeout n" by (simp add: backoffTimeout_def)
  have cap: "backoffTimeout n \<le> 30000" by (simp add: backoffTimeout_def)
  have mono: "backoffTimeout a \<le> backoffTimeout b" if "a \<le> b"
    using that by (rule backoffTimeout_mono)
  have cl: "timers (onclose e code s) (nextTimer s) =
          Some (ReconnectTimer (now e + int (backoffTimeout (reconnectAttempts s))))"
    if "code \<noteq> 1000 \<and> reconnectAttempts s < maxReconnectAttempts"
    using that
    by (simp add: onclose_def Let_def setTimer_def failPending_frame stopHeartbeat_def
        clearTimer_def split: option.splits)
  have ct: "timers (connect e s) (nextTimer s) =
          Some (ReconnectTimer (now e + int (backoffTimeout (reconnectAttempts s))))"
    if "currentReadyState s \<noteq> Some CONNECTING \<and> ctorThrows e
        \<and> reconnectAttempts s < maxReconnectAttempts"
    using that by (simp add: connect_def Let_def setTimer_def)
  from form pos cap mono cl ct show ?thesis by blast
qed

text \<open>The hypotheses of the theorem hold at concrete inputs, and its conclusions there: the
  first reconnect after a failed connection waits 1000 ms.\<close>

theorem backoffTimeout_policy_witness:
  "backoffTimeout 0 = 1000 \<and> backoffTimeout 4 = 16000 \<and> backoffTimeout 5 = 30000
   \<and> (4::nat) \<le> 5 \<and> backoffTimeout 4 \<le> backoffTimeout 5
   \<and> (1006::int) \<noteq> 1000 \<and> reconnectAttempts connectingState < maxReconnectAttempts
   \<and> timers (onclose (at 5) 1006 connectingState) (nextTimer connectingState) =
        Some (ReconnectTimer 1005)
   \<and> currentReadyState initial \<noteq> Some CONNECTING \<and> ctorThrows (failingCtor 7)
   \<and> reconnectAttempts initial < maxReconnectAttempts
   \<and> timers (connect (failingCtor 7) initial) (nextTimer initial) = Some (ReconnectTimer 1007)"
proof -
  have v: "backoffTimeout 0 = 1000" "backoffTimeout 4 = 16000" "backoffTimeout 5 = 30000"
    by (simp_all add: backoffTimeout_def)
  have le: "(4::nat) \<le> 5" by simp
  have m: "backoffTimeout 4 \<le> backoffTimeout 5"
    by (rule backoffTimeout_policy [where a = 4 and b = 5, THEN conjunct2, THEN conjunct2,
          THEN conjunct2, THEN conjunct1, rule_format, OF le])
  have h1: "(1006::int) \<noteq> 1000" by simp
  have h2: "reconnectAttempts connectingState < maxReconnectAttempts"
    by (simp add: run_defs model_defs)
  have a0: "reconnectAttempts connectingState = 0" by (simp add: run_defs model_defs)
  have c: "timers (onclose (at 5) 1006 connectingState) (nextTimer connectingState) =
        Some (ReconnectTimer (now (at 5) + int (backoffTimeout (reconnectAttempts connectingState))))"
    by (rule backoffTimeout_policy [where s = connectingState and e = "at 5" and code = 1006,
          THEN conjunct2, THEN conjunct2, THEN conjunct2, THEN conjunct2, THEN conjunct1,
          rule_format, OF conjI [OF h1 h2]])
  have c': "timers (onclose (at 5) 1006 connectingState) (nextTimer connectingState) =
        Some (ReconnectTimer 1005)"
    by (simp only: c a0 v) (simp add: at_def)
  have h3: "currentReadyState initial \<noteq> Some CONNECTING" by (simp add: run_defs model_defs)
  have h4: "ctorThrows (failingCtor 7)" by (simp add: failingCtor_def)
  have h5: "reconnectAttempts initial < maxReconnectAttempts" by (simp add: run_defs model_defs)
  have b0: "reconnectAttempts initial = 0" by (simp add: initial_def)
  have d: "timers (connect (failingCtor 7) initial) (nextTimer initial) =
        Some (ReconnectTimer (now (failingCtor 7) + int (backoffTimeout (reconnectAttempts initial))))"
    by (rule backoffTimeout_policy [where s = initial and e = "failingCtor 7",
          THEN conjunct2, THEN conjunct2, THEN conjunct2, THEN conjunct2, THEN conjunct2,
          rule_format, OF conjI [OF h3 conjI [OF h4 h5]]])
  have d': "timers (connect (failingCtor 7) initial) (nextTimer initial) = Some (ReconnectTimer 1007)"
    by (simp only: d b0 v) (simp add: failingCtor_def)
  from v le m h1 h2 c' h3 h4 h5 d' show ?thesis by (intro conjI)
qed

lemmas prim_defs =
  settleCaller_def setTimer_def clearTimer_def wsSend_def wsClose_def
  startHeartbeat_def stopHeartbeat_def heartbeatTick_def currentReadyState_def
  enqueue_def sendHttpMessage_def Let_def

lemma settledCallers_append: "settledCallers (xs @ ys) = settledCallers xs @ settledCallers ys"
  by (induction xs rule: settledCallers.induct) auto

lemma connect_frame:
  "messageCallbacksRef (connect e s) = messageCallbacksRef s"
  "messageQueueRef (connect e s) = messageQueueRef s"
  "promises (connect e s) = promises s"
  "nextPromise (connect e s) = nextPromise s"
  "nextCaller (connect e s) = nextCaller s"
  "httpPending (connect e s) = httpPending s"
  "effects (connect e s) = effects s"
  by (simp_all add: connect_def prim_defs)

lemma reconnect_frame:
  "messageCallbacksRef (reconnect e s) = messageCallbacksRef s"
  "messageQueueRef (reconnect e s) = messageQueueRef s"
  "promises (reconnect e s) = promises s"
  "nextPromise (reconnect e s) = nextPromise s"
  "nextCaller (reconnect e s) = nextCaller s"
  "httpPending (reconnect e s) = httpPending s"
  "settledCallers (effects (reconnect e s)) = settledCallers (effects s)"
  "reconnectAttempts (reconnect e s) = 0"
  by (simp_all add: reconnect_def connect_frame connect_def prim_defs settledCallers_append
      split: option.splits)

lemma reconnect_effects:
  "effects (reconnect e s) =
     effects s @ (case wsRef s of Some w \<Rightarrow> [CloseCalled w None] | None \<Rightarrow> [])"
  by (simp add: reconnect_def connect_frame prim_defs split: option.splits)

lemma sendMessageRest_frame:
  "messageCallbacksRef (sendMessageRest e c req cs s) = messageCallbacksRef s"
  "promises (sendMessageRest e c req cs s) = promises s"
  "nextPromise (sendMessageRest e c req cs s) = nextPromise s"
  "nextCaller (sendMessageRest e c req cs s) = nextCaller s"
  "settledCallers (effects (sendMessageRest e c req cs s)) = settledCallers (effects s)"
  by (simp_all add: sendMessageRest_def reconnect_frame prim_defs settledCallers_append)

lemma runCont_frame:
  "messageCallbacksRef (runCont e k out s) = messageCallbacksRef s"
  "promises (runCont e k out s) = promises s"
  "nextPromise (runCont e k out s) = nextPromise s"
  "nextCaller (runCont e k out s) = nextCaller s"
  by (cases k; cases out; simp add: sendMessageRest_frame prim_defs)+

lemma settlePromise_frame:
  "messageCallbacksRef (settlePromise e p out s) = messageCallbacksRef s"
  "nextPromise (settlePromise e p out s) = nextPromise s"
  "nextCaller (settlePromise e p out s) = nextCaller s"
  by (simp_all add: settlePromise_def runCont_frame split: option.splits)

lemma sendMessageInternal_table:
  "messageCallbacksRef (sendMessageInternal e k req s) =
     (if currentReadyState s = Some OPEN
      then AList.update (toString (now e)) (nextPromise s) (messageCallbacksRef s)
      else messageCallbacksRef s)"
  by (simp add: sendMessageInternal_def runCont_frame prim_defs split: option.splits)

lemma tableOK_sendMessageInternal: "tableOK s \<Longrightarrow> tableOK (sendMessageInternal e k req s)"
  by (simp add: tableOK_def sendMessageInternal_table distinct_update)

lemma tableOK_drainMessages: "tableOK s \<Longrightarrow> tableOK (drainMessages e qs s)"
proof (induction qs arbitrary: s)
  case Nil
  then show ?case by simp
next
  case (Cons q qs)
  have "tableOK (settleCaller (q_caller q) (Rejected MessageExpired) s)"
    using Cons.prems by (simp add: tableOK_def settleCaller_def)
  moreover have "tableOK (sendMessageInternal e (Queued (q_caller q)) (q_request q) s)"
    using Cons.prems by (rule tableOK_sendMessageInternal)
  ultimately show ?case using Cons.IH by simp
qed

lemma tableOK_step: "tableOK s \<Longrightarrow> tableOK (step e ev s)"
proof (cases ev)
  case (WsOpen w)
  assume ok: "tableOK s"
  have "tableOK (onopen e t)" if "tableOK t" for t
  proof -
    define t2 where "t2 = (case reconnectTimeoutRef t of
                  Some h \<Rightarrow> (clearTimer h (t\<lparr>isConnected := True, connectionState := Connected, reconnectAttempts := 0\<rparr>))\<lparr>reconnectTimeoutRef := None\<rparr>
                | None \<Rightarrow> t\<lparr>isConnected := True, connectionState := Connected, reconnectAttempts := 0\<rparr>)"
    have "tableOK t2" using that by (simp add: t2_def tableOK_def prim_defs split: option.splits)
    then have "tableOK (processMessageQueue e t2)"
      using tableOK_drainMessages [of "t2\<lparr>messageQueueRef := []\<rparr>" e "messageQueueRef t2"]
      by (simp add: processMessageQueue_def tableOK_def)
    then have "tableOK (startHeartbeat e (processMessageQueue e t2))"
      by (simp add: tableOK_def prim_defs split: option.splits)
    then show ?thesis by (simp add: onopen_def t2_def Let_def)
  qed
  then show ?thesis using ok WsOpen by (simp add: tableOK_def)
next
  case (WsMessage w d)
  assume "tableOK s"
  then show ?thesis using WsMessage
    by (cases d) (simp_all add: onmessage_def tableOK_def settlePromise_frame distinct_delete Let_def
        split: option.splits)
next
  case (WsClose w code)
  assume "tableOK s"
  moreover have "messageCallbacksRef (onclose e code t) = []" for t
    by (simp add: onclose_def Let_def setTimer_def)
  ultimately show ?thesis using WsClose by (simp add: tableOK_def)
next
  case (WsError w)
  assume "tableOK s"
  then show ?thesis using WsError by (simp add: onerror_def tableOK_def)
next
  case (TimerFires h)
  assume "tableOK s"
  then show ?thesis using TimerFires
    by (simp add: fireTimer_def tableOK_def connect_frame settlePromise_frame distinct_delete prim_defs
        split: option.splits timer.splits)
next
  case (CallSendMessage req)
  assume "tableOK s"
  then have "tableOK (s\<lparr>nextCaller := Suc (nextCaller s)\<rparr>)" by (simp add: tableOK_def)
  then show ?thesis using CallSendMessage tableOK_sendMessageInternal
    by (simp add: sendMessage_def Let_def) (simp add: tableOK_def sendMessageRest_frame)
next
  case CallReconnect
  assume "tableOK s"
  then show ?thesis using CallReconnect by (simp add: tableOK_def reconnect_frame)
next
  case (HttpDone c res)
  assume "tableOK s"
  then show ?thesis using HttpDone by (simp add: tableOK_def prim_defs)
next
  case Mount
  assume "tableOK s"
  then show ?thesis using Mount by (simp add: tableOK_def connect_frame)
next
  case Unmount
  assume "tableOK s"
  then show ?thesis using Unmount by (simp add: tableOK_def prim_defs split: option.splits)
qed

lemma tableOK_run: "tableOK s \<Longrightarrow> tableOK (run es s)"
  by (induction es arbitrary: s) (auto simp: tableOK_step)


































lemma sendMessageInternal_open:
  "wsRef s = Some w \<Longrightarrow> sockets s w = Some OPEN \<Longrightarrow>
   sendMessageInternal e k req s =
     s\<lparr>promises := AList.update (nextPromise s) k (promises s),
       nextPromise := Suc (nextPromise s),
       messageCallbacksRef :=
         AList.update (toString (now e)) (nextPromise s) (messageCallbacksRef s),
       timers := (timers s)(nextTimer s \<mapsto>
         MessageTimer (now e + 30000) (toString (now e)) (nextPromise s)),
       nextTimer := Suc (nextTimer s),
       effects := effects s @ [Sent w (Chat (req\<lparr>context_id := Some (toString (now e))\<rparr>))]\<rparr>"
  by (simp add: sendMessageInternal_def Let_def setTimer_def wsSend_def)

lemma fireTimer_MessageTimer:
  "timers t h = Some (MessageTimer d m p) \<Longrightarrow> d \<le> now e \<Longrightarrow>
   fireTimer e h t =
     (if map_of (messageCallbacksRef t) m \<noteq> None
      then settlePromise e p (Rejected MessageTimeout)
             (t\<lparr>timers := (timers t)(h := None),
                messageCallbacksRef := AList.delete m (messageCallbacksRef t)\<rparr>)
      else t\<lparr>timers := (timers t)(h := None)\<rparr>)"
  by (simp add: fireTimer_def clearTimer_def Let_def)

lemma fireTimer_early:
  "timers t h = Some tm \<Longrightarrow> now e < due tm \<Longrightarrow> fireTimer e h t = t"
  by (simp add: fireTimer_def)

lemma runCont_effects_Queued:
  "effects (runCont e (Queued c) out t) = effects t @ [CallerSettled c out]"
  by (simp add: settleCaller_def)

lemma runCont_promises_lookup: "map_of (promises (runCont e k out t)) p = map_of (promises t) p"
  by (simp add: runCont_frame)

text \<open>
  Claim C9, as amended. A request sent over the socket gets a timer of 30000 ms. The timer
  does nothing before its deadline. When it fires with the entry still in the table, the
  entry is removed and the promise of \<^verbatim>\<open>sendMessageInternal\<close> is rejected with
  \<^verbatim>\<open>'Message timeout'\<close>. That rejection reaches the original caller when the request came
  from the queue drain. For a request sent directly by \<^verbatim>\<open>sendMessage\<close> the rejection is
  caught and the request is routed again: with the state connected it is posted to the HTTP
  fallback, so the caller gets the outcome of the fallback, not the timeout.
\<close>

theorem request_timeout:
  assumes "wsRef s = Some w" and "sockets s w = Some OPEN"
  shows "timers (sendMessageInternal e k req s) (nextTimer s) =
           Some (MessageTimer (now e + 30000) (toString (now e)) (nextPromise s))
       \<and> (now e' < now e + 30000 \<longrightarrow>
            fireTimer e' (nextTimer s) (sendMessageInternal e k req s) = sendMessageInternal e k req s)
       \<and> (now e + 30000 \<le> now e' \<longrightarrow>
            map_of (messageCallbacksRef (fireTimer e' (nextTimer s) (sendMessageInternal e k req s)))
              (toString (now e)) = None
          \<and> map_of (promises (fireTimer e' (nextTimer s) (sendMessageInternal e k req s)))
              (nextPromise s) = None
          \<and> (\<forall>c. k = Queued c \<longrightarrow>
                effects (fireTimer e' (nextTimer s) (sendMessageInternal e k req s)) =
                  effects (sendMessageInternal e k req s) @ [CallerSettled c (Rejected MessageTimeout)])
          \<and> (\<forall>c r. k = Direct c r Connected \<longrightarrow>
                effects (fireTimer e' (nextTimer s) (sendMessageInternal e k req s)) =
                  effects (sendMessageInternal e k req s) @ [HttpPost c r]))"
proof -
  define s1 where "s1 = sendMessageInternal e k req s"
  define t where "t = s1\<lparr>timers := (timers s1)(nextTimer s := None),
                messageCallbacksRef := AList.delete (toString (now e)) (messageCallbacksRef s1)\<rparr>"
  have s1: "timers s1 (nextTimer s) = Some (MessageTimer (now e + 30000) (toString (now e)) (nextPromise s))"
    "map_of (messageCallbacksRef s1) (toString (now e)) = Some (nextPromise s)"
    "map_of (promises s1) (nextPromise s) = Some k"
    using assms by (simp_all add: s1_def sendMessageInternal_open update_conv')
  have early: "fireTimer e' (nextTimer s) s1 = s1" if "now e' < now e + 30000"
    using that s1(1) by (simp add: fireTimer_early)
  have late: "fireTimer e' (nextTimer s) s1 =
      runCont e' k (Rejected MessageTimeout) (t\<lparr>promises := AList.delete (nextPromise s) (promises t)\<rparr>)"
    if "now e + 30000 \<le> now e'"
    using that s1 by (simp add: fireTimer_MessageTimer settlePromise_def t_def)
  have tf: "map_of (messageCallbacksRef t) (toString (now e)) = None" "effects t = effects s1"
    by (simp_all add: t_def delete_conv')
  have a: "map_of (messageCallbacksRef (fireTimer e' (nextTimer s) s1)) (toString (now e)) = None"
    if "now e + 30000 \<le> now e'"
    using that tf by (simp add: late runCont_frame)
  have b: "map_of (promises (fireTimer e' (nextTimer s) s1)) (nextPromise s) = None"
    if "now e + 30000 \<le> now e'"
    using that by (simp add: late runCont_frame delete_conv')
  have c: "effects (fireTimer e' (nextTimer s) s1) = effects s1 @ [CallerSettled c (Rejected MessageTimeout)]"
    if "now e + 30000 \<le> now e'" "k = Queued c" for c
    using that tf by (simp add: late settleCaller_def)
  have d: "effects (fireTimer e' (nextTimer s) s1) = effects s1 @ [HttpPost c r]"
    if "now e + 30000 \<le> now e'" "k = Direct c r Connected" for c r
    using that tf by (simp add: late sendMessageRest_def sendHttpMessage_def)
  show ?thesis
    using s1(1) early a b c d unfolding s1_def by blast
qed

text \<open>
  The claim C9 as stated fails. Request A is sent by \<^verbatim>\<open>sendMessage\<close> over the open socket
  and no response comes. When the timer fires at the deadline the entry is removed, but the
  caller is not settled with the timeout: the request is posted to the HTTP fallback, and
  the caller later gets the answer of that request.
\<close>

theorem direct_send_timeout_falls_back:
  "currentReadyState connectedState = Some OPEN
   \<and> effects timeoutRun =
       [Sent 0 (Chat (requestA\<lparr>context_id := Some ''1000''\<rparr>)), HttpPost 0 requestA]
   \<and> settledCallers (effects timeoutRun) = []
   \<and> messageCallbacksRef timeoutRun = []
   \<and> httpPending timeoutRun = [0]
   \<and> effects (step (at 31200) (HttpDone 0 (Some responseR)) timeoutRun) =
       [Sent 0 (Chat (requestA\<lparr>context_id := Some ''1000''\<rparr>)), HttpPost 0 requestA,
        CallerSettled 0 (Fulfilled responseR)]"
  by (simp add: run_defs model_defs)

text \<open>The hypotheses of the theorem hold in a concrete run, and its conclusions there.\<close>

theorem request_timeout_witness:
  "wsRef connectedState = Some 0
   \<and> sockets connectedState 0 = Some OPEN
   \<and> now (at 30999) < now (at 1000) + 30000
   \<and> fireTimer (at 30999) (nextTimer connectedState)
        (sendMessageInternal (at 1000) (Queued 7) requestA connectedState) =
       sendMessageInternal (at 1000) (Queued 7) requestA connectedState
   \<and> now (at 1000) + 30000 \<le> now (at 31000)
   \<and> map_of (messageCallbacksRef (fireTimer (at 31000) (nextTimer connectedState)
        (sendMessageInternal (at 1000) (Queued 7) requestA connectedState))) ''1000'' = None
   \<and> effects (fireTimer (at 31000) (nextTimer connectedState)
        (sendMessageInternal (at 1000) (Queued 7) requestA connectedState)) =
       [Sent 0 (Chat (requestA\<lparr>context_id := Some ''1000''\<rparr>)),
        CallerSettled 7 (Rejected MessageTimeout)]
   \<and> effects (fireTimer (at 31000) (nextTimer connectedState)
        (sendMessageInternal (at 1000) (Direct 0 requestA Connected) requestA connectedState)) =
       [Sent 0 (Chat (requestA\<lparr>context_id := Some ''1000''\<rparr>)), HttpPost 0 requestA]"
proof -
  have h1: "wsRef connectedState = Some 0" by (simp add: run_defs model_defs)
  have h2: "sockets connectedState 0 = Some OPEN" by (simp add: run_defs model_defs)
  have t1: "now (at 30999) < now (at 1000) + 30000" by (simp add: run_defs model_defs)
  have t2: "now (at 1000) + 30000 \<le> now (at 31000)" by (simp add: run_defs model_defs)
  have id: "toString (now (at 1000)) = ''1000''" by (simp add: run_defs model_defs)
  have e1: "effects (sendMessageInternal (at 1000) k requestA connectedState) =
      [Sent 0 (Chat (requestA\<lparr>context_id := Some ''1000''\<rparr>))]" for k
    by (simp add: sendMessageInternal_open [OF h1 h2] id) code_simp
  note early = request_timeout [OF h1 h2, where e = "at 1000" and k = "Queued 7" and req = requestA
      and e' = "at 30999"]
  note late = request_timeout [OF h1 h2, where e = "at 1000" and k = "Queued 7" and req = requestA
      and e' = "at 31000"]
  note direct = request_timeout [OF h1 h2, where e = "at 1000" and k = "Direct 0 requestA Connected"
      and req = requestA and e' = "at 31000"]
  have a: "fireTimer (at 30999) (nextTimer connectedState)
        (sendMessageInternal (at 1000) (Queued 7) requestA connectedState) =
       sendMessageInternal (at 1000) (Queued 7) requestA connectedState"
    using early t1 by blast
  have b: "map_of (messageCallbacksRef (fireTimer (at 31000) (nextTimer connectedState)
        (sendMessageInternal (at 1000) (Queued 7) requestA connectedState))) (toString (now (at 1000))) = None"
    using late t2 by blast
  have c: "effects (fireTimer (at 31000) (nextTimer connectedState)
        (sendMessageInternal (at 1000) (Queued 7) requestA connectedState)) =
       effects (sendMessageInternal (at 1000) (Queued 7) requestA connectedState)
       @ [CallerSettled 7 (Rejected MessageTimeout)]"
    using late t2 by blast
  have d: "effects (fireTimer (at 31000) (nextTimer connectedState)
        (sendMessageInternal (at 1000) (Direct 0 requestA Connected) requestA connectedState)) =
       effects (sendMessageInternal (at 1000) (Direct 0 requestA Connected) requestA connectedState)
       @ [HttpPost 0 requestA]"
    using direct t2 by blast
  from h1 h2 t1 a t2 b c d show ?thesis by (simp add: e1 id)
qed


lemma onmessage_response_absent:
  "map_of (messageCallbacksRef t) (resp_context_id r) = None \<Longrightarrow>
   onmessage e (ChatResponseMsg r) t = t\<lparr>lastMessage := Some (ChatResponseMsg r)\<rparr>"
  by (simp add: onmessage_def)

lemma onmessage_response_present:
  "map_of (messageCallbacksRef t) (resp_context_id r) = Some p \<Longrightarrow>
   onmessage e (ChatResponseMsg r) t =
     (settlePromise e p (Fulfilled r) (t\<lparr>lastMessage := Some (ChatResponseMsg r)\<rparr>))
       \<lparr>messageCallbacksRef := AList.delete (resp_context_id r) (messageCallbacksRef t)\<rparr>"
  by (simp add: onmessage_def Let_def settlePromise_frame)

lemma fireTimer_entry_gone:
  "timers t h = Some (MessageTimer d m p) \<Longrightarrow> map_of (messageCallbacksRef t) m = None \<Longrightarrow>
   effects (fireTimer e h t) = effects t"
  by (cases "now e < d") (simp_all add: fireTimer_early fireTimer_MessageTimer)

subsection \<open>A registered request stays registered until it is settled\<close>





lemma coherent_weaken: "coherent L m p k h d s \<Longrightarrow> coherent False m p k h d s"
  by (simp add: coherent_def)
































lemma handlesOK_coherent: "handlesOK s = coherent False [] 0 (Queued 0) 0 0 s"
  by (simp add: coherent_def)


























text \<open>
  Why the id of a registered request must not be taken again. Requests A and B are sent
  over the open socket within the same millisecond, so both get the id \<^verbatim>\<open>'1000'\<close> and the
  callback of B replaces that of A in the table. One response with that id arrives and both
  timers fire. Call 1 is settled; call 0 never is: its promise is still pending, and no
  entry, timer, queued message or HTTP request is left that could settle it.
\<close>

lemma colliding_request_never_resolved:
  "currentReadyState connectedState = Some OPEN
   \<and> settledCallers (effects collidedRun) = [1]
   \<and> promises collidedRun = [(0, Direct 0 requestA Connected)]
   \<and> messageCallbacksRef collidedRun = []
   \<and> timers collidedRun 1 = None
   \<and> timers collidedRun 2 = None
   \<and> messageQueueRef collidedRun = []
   \<and> httpPending collidedRun = []"
  by (simp add: run_defs model_defs)

text \<open>
  Claim C2, as amended. Registering a pending request never fails: the client has no
  duplicate-id error. \<^verbatim>\<open>sendMessageInternal\<close> stores the new callback under the message
  id with \<^verbatim>\<open>Map.set\<close>, after which the table maps the id to the new request, the new
  promise is pending, nothing is delivered to any caller and every other id keeps its
  entry. In every reachable state the ids of the table are pairwise distinct.
\<close>

theorem registration_never_fails:
  "distinct (map fst (messageCallbacksRef (run es initial)))
   \<and> (currentReadyState s = Some OPEN \<longrightarrow>
        map_of (messageCallbacksRef (sendMessageInternal e k req s)) (toString (now e)) =
          Some (nextPromise s)
      \<and> map_of (promises (sendMessageInternal e k req s)) (nextPromise s) = Some k
      \<and> settledCallers (effects (sendMessageInternal e k req s)) = settledCallers (effects s)
      \<and> (distinct (map fst (messageCallbacksRef s)) \<longrightarrow>
           distinct (map fst (messageCallbacksRef (sendMessageInternal e k req s))))
      \<and> (\<forall>m. m \<noteq> toString (now e) \<longrightarrow>
           map_of (messageCallbacksRef (sendMessageInternal e k req s)) m =
             map_of (messageCallbacksRef s) m))"
proof -
  have "tableOK initial" by (simp add: tableOK_def initial_def)
  then have reach: "distinct (map fst (messageCallbacksRef (run es initial)))"
    using tableOK_run [of initial es] by (simp add: tableOK_def)
  have reg: "map_of (messageCallbacksRef (sendMessageInternal e k req s)) (toString (now e)) =
          Some (nextPromise s)
      \<and> map_of (promises (sendMessageInternal e k req s)) (nextPromise s) = Some k
      \<and> settledCallers (effects (sendMessageInternal e k req s)) = settledCallers (effects s)
      \<and> (distinct (map fst (messageCallbacksRef s)) \<longrightarrow>
           distinct (map fst (messageCallbacksRef (sendMessageInternal e k req s))))
      \<and> (\<forall>m. m \<noteq> toString (now e) \<longrightarrow>
           map_of (messageCallbacksRef (sendMessageInternal e k req s)) m =
             map_of (messageCallbacksRef s) m)"
    if "currentReadyState s = Some OPEN"
  proof -
    from that obtain w where w: "wsRef s = Some w" "sockets s w = Some OPEN"
      by (auto simp: currentReadyState_def split: option.splits)
    show ?thesis
      by (simp add: sendMessageInternal_open [OF w] update_conv' distinct_update
          settledCallers_append)
  qed
  from reach reg show ?thesis by blast
qed

text \<open>
  The claim C2 as stated fails. With the id \<^verbatim>\<open>'1000'\<close> present in the table, the second
  send of the same millisecond registers under that id again: no error is raised or
  delivered, both promises are pending, both frames are sent, and the table now holds the
  second promise under the id.
\<close>

theorem duplicate_registration_succeeds:
  "map_of (messageCallbacksRef sentState) ''1000'' = Some 0
   \<and> toString (now (at 1000)) = ''1000''
   \<and> messageCallbacksRef duplicateRun = [(''1000'', 1)]
   \<and> promises duplicateRun =
       [(0, Direct 0 requestA Connected), (1, Direct 1 requestB Connected)]
   \<and> settledCallers (effects duplicateRun) = []
   \<and> effects duplicateRun =
       [Sent 0 (Chat (requestA\<lparr>context_id := Some ''1000''\<rparr>)),
        Sent 0 (Chat (requestB\<lparr>context_id := Some ''1000''\<rparr>))]"
  by (simp add: run_defs model_defs)

text \<open>The hypotheses of the theorem hold in a concrete run, and its conclusions there.\<close>

theorem registration_never_fails_witness:
  "currentReadyState sentState = Some OPEN
   \<and> distinct (map fst (messageCallbacksRef sentState))
   \<and> map_of (messageCallbacksRef (sendMessageInternal (at 1000) (Queued 7) requestB sentState))
        ''1000'' = Some 1
   \<and> map_of (promises (sendMessageInternal (at 1000) (Queued 7) requestB sentState)) 1 =
        Some (Queued 7)
   \<and> distinct (map fst (messageCallbacksRef
        (sendMessageInternal (at 1000) (Queued 7) requestB sentState)))
   \<and> distinct (map fst (messageCallbacksRef duplicateRun))
   \<and> ''999'' \<noteq> toString (now (at 1000))
   \<and> map_of (messageCallbacksRef (sendMessageInternal (at 1000) (Queued 7) requestB sentState))
        ''999'' = map_of (messageCallbacksRef sentState) ''999''"
proof -
  have h: "currentReadyState sentState = Some OPEN" by (simp add: run_defs model_defs)
  have d: "distinct (map fst (messageCallbacksRef sentState))" by (simp add: run_defs model_defs)
  have np: "nextPromise sentState = 1" by (simp add: run_defs model_defs)
  have id: "toString (now (at 1000)) = ''1000''" by (simp add: run_defs model_defs)
  have dup: "duplicateRun =
      run [(at 0, Mount), (at 5, WsOpen 0), (at 1000, CallSendMessage requestA),
           (at 1000, CallSendMessage requestB)] initial"
    by (simp add: duplicateRun_def connectedState_def)
  note inst = registration_never_fails [where s = sentState and e = "at 1000" and k = "Queued 7"
      and req = requestB
      and es = "[(at 0, Mount), (at 5, WsOpen 0), (at 1000, CallSendMessage requestA),
           (at 1000, CallSendMessage requestB)]"]
  have a: "map_of (messageCallbacksRef (sendMessageInternal (at 1000) (Queued 7) requestB sentState))
        (toString (now (at 1000))) = Some (nextPromise sentState)"
    and b: "map_of (promises (sendMessageInternal (at 1000) (Queued 7) requestB sentState))
        (nextPromise sentState) = Some (Queued 7)"
    and c: "distinct (map fst (messageCallbacksRef
        (sendMessageInternal (at 1000) (Queued 7) requestB sentState)))"
    using inst h d by blast+
  have e: "distinct (map fst (messageCallbacksRef duplicateRun))"
    using inst unfolding dup by blast
  have ne: "''999'' \<noteq> toString (now (at 1000))" by (simp only: id) simp
  have f: "map_of (messageCallbacksRef (sendMessageInternal (at 1000) (Queued 7) requestB sentState))
        ''999'' = map_of (messageCallbacksRef sentState) ''999''"
    using inst h ne by blast
  have abc: "map_of (messageCallbacksRef (sendMessageInternal (at 1000) (Queued 7) requestB sentState))
        ''1000'' = Some 1"
    "map_of (promises (sendMessageInternal (at 1000) (Queued 7) requestB sentState)) 1 =
        Some (Queued 7)"
    using a b by (simp_all only: np id)
  from h d abc c e ne f show ?thesis by (intro conjI)
qed

text \<open>
  Claim C3, as amended. When the socket is not open and the state is disconnected or
  error, \<^verbatim>\<open>sendMessage\<close> does not use the HTTP fallback: it calls \<^verbatim>\<open>reconnect\<close> and appends
  the request to the outbound queue, where it waits for a socket to open. In state
  connecting it only appends to the queue. The fallback is used when the socket is not open
  while the state is connected.
\<close>

theorem send_when_disconnected_queues:
  assumes "currentReadyState s \<noteq> Some OPEN"
  shows "(connectionState s = Disconnected \<or> connectionState s = Error \<longrightarrow>
            sendMessage e req s =
              enqueue e (nextCaller s) req (reconnect e (s\<lparr>nextCaller := Suc (nextCaller s)\<rparr>))
          \<and> messageQueueRef (sendMessage e req s) =
              messageQueueRef s @ [\<lparr>q_request = req, q_caller = nextCaller s, q_timestamp = now e\<rparr>]
          \<and> httpPending (sendMessage e req s) = httpPending s
          \<and> effects (sendMessage e req s) =
              effects s @ (case wsRef s of Some w \<Rightarrow> [CloseCalled w None] | None \<Rightarrow> []))
       \<and> (connectionState s = Connecting \<longrightarrow>
            sendMessage e req s = enqueue e (nextCaller s) req (s\<lparr>nextCaller := Suc (nextCaller s)\<rparr>))
       \<and> (connectionState s = Connected \<longrightarrow>
            sendMessage e req s =
              sendHttpMessage (nextCaller s) req (s\<lparr>nextCaller := Suc (nextCaller s)\<rparr>)
          \<and> effects (sendMessage e req s) = effects s @ [HttpPost (nextCaller s) req])"
  using assms
  by (auto simp: sendMessage_def sendMessageRest_def Let_def currentReadyState_def enqueue_def
      sendHttpMessage_def reconnect_frame reconnect_effects split: option.splits)

text \<open>
  The claim C3 as stated fails. The state is disconnected with no socket; the request sent
  then is placed in the queue, and nothing is posted to the HTTP fallback.
\<close>

theorem send_while_disconnected_is_queued:
  "connectionState disconnectedState = Disconnected
   \<and> currentReadyState disconnectedState = None
   \<and> effects (sendMessage (at 6) requestA disconnectedState) = []
   \<and> httpPending (sendMessage (at 6) requestA disconnectedState) = []
   \<and> settledCallers (effects (sendMessage (at 6) requestA disconnectedState)) = []
   \<and> messageQueueRef (sendMessage (at 6) requestA disconnectedState) =
       [\<lparr>q_request = requestA, q_caller = 0, q_timestamp = 6\<rparr>]"
  by (simp add: run_defs model_defs)

text \<open>The hypotheses of the theorem hold in a concrete run, and its conclusions there.\<close>

theorem send_when_disconnected_queues_witness:
  "currentReadyState disconnectedState \<noteq> Some OPEN
   \<and> connectionState disconnectedState = Disconnected
   \<and> messageQueueRef (sendMessage (at 7) requestB disconnectedState) =
       [\<lparr>q_request = requestB, q_caller = 0, q_timestamp = 7\<rparr>]
   \<and> httpPending (sendMessage (at 7) requestB disconnectedState) = []
   \<and> currentReadyState connectingState \<noteq> Some OPEN
   \<and> connectionState connectingState = Connecting
   \<and> sendMessage (at 7) requestB connectingState =
       enqueue (at 7) (nextCaller connectingState) requestB
         (connectingState\<lparr>nextCaller := Suc (nextCaller connectingState)\<rparr>)
   \<and> currentReadyState (step (at 13) (WsOpen 1) orphanedState) \<noteq> Some OPEN
   \<and> connectionState (step (at 13) (WsOpen 1) orphanedState) = Connected
   \<and> effects (sendMessage (at 20) requestB (step (at 13) (WsOpen 1) orphanedState)) =
       [CloseCalled 0 None, HttpPost 1 requestB]"
proof -
  let ?f = "step (at 13) (WsOpen 1) orphanedState"
  have h: "currentReadyState disconnectedState \<noteq> Some OPEN" by (simp add: run_defs model_defs)
  have c: "connectionState disconnectedState = Disconnected" by (simp add: run_defs model_defs)
  have f1: "messageQueueRef disconnectedState = []" by (simp add: run_defs model_defs)
  have f2: "httpPending disconnectedState = []" by (simp add: run_defs model_defs)
  have f3: "nextCaller disconnectedState = 0" by (simp add: run_defs model_defs)
  have f4: "now (at 7) = 7" by (simp add: at_def)
  note inst = send_when_disconnected_queues [OF h, of "at 7" requestB, THEN conjunct1, rule_format,
      OF disjI1 [OF c]]
  have a: "messageQueueRef (sendMessage (at 7) requestB disconnectedState) =
        messageQueueRef disconnectedState
        @ [\<lparr>q_request = requestB, q_caller = nextCaller disconnectedState, q_timestamp = now (at 7)\<rparr>]"
    by (rule inst [THEN conjunct2, THEN conjunct1])
  have b: "httpPending (sendMessage (at 7) requestB disconnectedState) = httpPending disconnectedState"
    by (rule inst [THEN conjunct2, THEN conjunct2, THEN conjunct1])
  have h2: "currentReadyState connectingState \<noteq> Some OPEN" by (simp add: run_defs model_defs)
  have c2: "connectionState connectingState = Connecting" by (simp add: run_defs model_defs)
  have d: "sendMessage (at 7) requestB connectingState =
       enqueue (at 7) (nextCaller connectingState) requestB
         (connectingState\<lparr>nextCaller := Suc (nextCaller connectingState)\<rparr>)"
    by (rule send_when_disconnected_queues [OF h2, of "at 7" requestB,
          THEN conjunct2, THEN conjunct1, rule_format, OF c2])
  have h3: "currentReadyState ?f \<noteq> Some OPEN" by (simp add: run_defs model_defs)
  have c3: "connectionState ?f = Connected" by (simp add: run_defs model_defs)
  have g1: "effects ?f = [CloseCalled 0 None]" by (simp add: run_defs model_defs)
  have g2: "nextCaller ?f = 1" by (simp add: run_defs model_defs)
  have e0: "effects (sendMessage (at 20) requestB ?f) =
       effects ?f @ [HttpPost (nextCaller ?f) requestB]"
    by (rule send_when_disconnected_queues [OF h3, of "at 20" requestB,
          THEN conjunct2, THEN conjunct2, rule_format, OF c3, THEN conjunct2])
  have e: "effects (sendMessage (at 20) requestB ?f) =
       [CloseCalled 0 None, HttpPost 1 requestB]"
    by (simp only: e0 g1 g2 append.simps)
  have a': "messageQueueRef (sendMessage (at 7) requestB disconnectedState) =
       [\<lparr>q_request = requestB, q_caller = 0, q_timestamp = 7\<rparr>]"
    by (simp only: a f1 f3 f4 append.simps)
  have b': "httpPending (sendMessage (at 7) requestB disconnectedState) = []"
    by (simp only: b f2)
  from h c a' b' h2 c2 d h3 c3 e show ?thesis by (intro conjI)
qed

text \<open>
  Claim C6, as amended. \<^verbatim>\<open>connect\<close> has no effect while the current socket is
  \<^verbatim>\<open>CONNECTING\<close>. In every other situation, an open socket included, it sets the state to
  connecting and calls the constructor: when that returns, the new socket is the current
  one; when it raises, no socket is created, the state is error, and a reconnect timer with
  the backoff delay is armed while fewer than 10 attempts were made. The explicit retry
  \<^verbatim>\<open>reconnect\<close> resets the attempt counter to 0, closes the current socket, and then calls
  \<^verbatim>\<open>connect\<close>, which its guard never stops there: a new socket is created and becomes the
  current one, or, when the constructor raises, the state is error and a timer of 1000 ms is
  armed.
\<close>

theorem connect_noop_while_connecting:
  "(currentReadyState s = Some CONNECTING \<longrightarrow> connect e s = s)
   \<and> (currentReadyState s \<noteq> Some CONNECTING \<and> \<not> ctorThrows e \<longrightarrow>
        connect e s =
          s\<lparr>connectionState := Connecting,
            sockets := (sockets s)(nextSocket s \<mapsto> CONNECTING),
            wsRef := Some (nextSocket s),
            nextSocket := Suc (nextSocket s)\<rparr>)
   \<and> (currentReadyState s \<noteq> Some CONNECTING \<and> ctorThrows e \<longrightarrow>
        connect e s =
          (if reconnectAttempts s < maxReconnectAttempts
           then s\<lparr>connectionState := Error,
                  timers := (timers s)(nextTimer s \<mapsto>
                    ReconnectTimer (now e + int (backoffTimeout (reconnectAttempts s)))),
                  nextTimer := Suc (nextTimer s),
                  reconnectTimeoutRef := Some (nextTimer s)\<rparr>
           else s\<lparr>connectionState := Error\<rparr>))
   \<and> reconnectAttempts (reconnect e s) = 0
   \<and> effects (reconnect e s) =
        effects s @ (case wsRef s of Some w \<Rightarrow> [CloseCalled w None] | None \<Rightarrow> [])
   \<and> (\<forall>w. wsRef s = Some w \<and> w \<noteq> nextSocket s
          \<and> (sockets s w = Some OPEN \<or> sockets s w = Some CONNECTING) \<longrightarrow>
          sockets (reconnect e s) w = Some CLOSING)
   \<and> (\<not> ctorThrows e \<longrightarrow>
        connectionState (reconnect e s) = Connecting
        \<and> wsRef (reconnect e s) = Some (nextSocket s)
        \<and> sockets (reconnect e s) (nextSocket s) = Some CONNECTING
        \<and> nextSocket (reconnect e s) = Suc (nextSocket s))
   \<and> (ctorThrows e \<longrightarrow>
        connectionState (reconnect e s) = Error
        \<and> wsRef (reconnect e s) = wsRef s
        \<and> nextSocket (reconnect e s) = nextSocket s
        \<and> (\<exists>h. reconnectTimeoutRef (reconnect e s) = Some h
               \<and> timers (reconnect e s) h = Some (ReconnectTimer (now e + 1000))))"
proof -
  define s3 where "s3 =
     (let s1 = (case reconnectTimeoutRef s of
                  Some h \<Rightarrow> (clearTimer h s)\<lparr>reconnectTimeoutRef := None\<rparr>
                | None \<Rightarrow> s);
          s2 = s1\<lparr>reconnectAttempts := 0\<rparr>
      in (case wsRef s2 of Some w \<Rightarrow> wsClose w None s2 | None \<Rightarrow> s2))"
  have rc: "reconnect e s = connect e s3" by (simp add: reconnect_def s3_def Let_def)
  have s3f: "wsRef s3 = wsRef s" "nextSocket s3 = nextSocket s" "reconnectAttempts s3 = 0"
    by (simp_all add: s3_def Let_def wsClose_def clearTimer_def split: option.splits)
  have guard: "currentReadyState s3 \<noteq> Some CONNECTING"
    by (auto simp: s3_def Let_def wsClose_def clearTimer_def currentReadyState_def
        split: option.splits)
  have closing: "sockets s3 w = Some CLOSING"
    if "wsRef s = Some w" "sockets s w = Some OPEN \<or> sockets s w = Some CONNECTING" for w
    using that by (auto simp: s3_def Let_def wsClose_def clearTimer_def split: option.splits)
  have c1: "connect e s = s" if "currentReadyState s = Some CONNECTING"
    using that by (simp add: connect_def)
  have c2: "connect e s =
          s\<lparr>connectionState := Connecting,
            sockets := (sockets s)(nextSocket s \<mapsto> CONNECTING),
            wsRef := Some (nextSocket s),
            nextSocket := Suc (nextSocket s)\<rparr>"
    if "currentReadyState s \<noteq> Some CONNECTING \<and> \<not> ctorThrows e"
    using that by (simp add: connect_def)
  have c3: "connect e s =
          (if reconnectAttempts s < maxReconnectAttempts
           then s\<lparr>connectionState := Error,
                  timers := (timers s)(nextTimer s \<mapsto>
                    ReconnectTimer (now e + int (backoffTimeout (reconnectAttempts s)))),
                  nextTimer := Suc (nextTimer s),
                  reconnectTimeoutRef := Some (nextTimer s)\<rparr>
           else s\<lparr>connectionState := Error\<rparr>)"
    if "currentReadyState s \<noteq> Some CONNECTING \<and> ctorThrows e"
    using that by (simp add: connect_def Let_def setTimer_def)
  have r1: "reconnectAttempts (reconnect e s) = 0" by (simp add: reconnect_frame)
  have r2: "effects (reconnect e s) =
        effects s @ (case wsRef s of Some w \<Rightarrow> [CloseCalled w None] | None \<Rightarrow> [])"
    by (rule reconnect_effects)
  have r3: "sockets (reconnect e s) w = Some CLOSING"
    if "wsRef s = Some w \<and> w \<noteq> nextSocket s
          \<and> (sockets s w = Some OPEN \<or> sockets s w = Some CONNECTING)" for w
    using that closing [of w] guard
    by (simp add: rc connect_def Let_def setTimer_def s3f)
  have r4: "connectionState (reconnect e s) = Connecting
        \<and> wsRef (reconnect e s) = Some (nextSocket s)
        \<and> sockets (reconnect e s) (nextSocket s) = Some CONNECTING
        \<and> nextSocket (reconnect e s) = Suc (nextSocket s)"
    if "\<not> ctorThrows e"
    using that guard by (simp add: rc connect_def s3f)
  have r5: "connectionState (reconnect e s) = Error
        \<and> wsRef (reconnect e s) = wsRef s
        \<and> nextSocket (reconnect e s) = nextSocket s
        \<and> (\<exists>h. reconnectTimeoutRef (reconnect e s) = Some h
               \<and> timers (reconnect e s) h = Some (ReconnectTimer (now e + 1000)))"
    if "ctorThrows e"
    using that guard
    by (simp add: rc connect_def Let_def setTimer_def s3f maxReconnectAttempts_def backoffTimeout_def)
  from c1 c2 c3 r1 r2 r3 r4 r5 show ?thesis by blast
qed

text \<open>
  The claim C6 as stated fails. With the current socket open, \<^verbatim>\<open>connect\<close> creates a
  second socket, makes it the current one and sets the state to connecting.
\<close>

theorem connect_while_open_creates_socket:
  "currentReadyState connectedState = Some OPEN
   \<and> connectionState connectedState = Connected
   \<and> nextSocket connectedState = 1
   \<and> nextSocket (connect (at 10) connectedState) = 2
   \<and> wsRef (connect (at 10) connectedState) = Some 1
   \<and> sockets (connect (at 10) connectedState) 1 = Some CONNECTING
   \<and> connectionState (connect (at 10) connectedState) = Connecting"
  by (simp add: run_defs model_defs)

text \<open>The hypotheses of the theorem hold in a concrete run, and its conclusions there.\<close>

theorem connect_noop_while_connecting_witness:
  "currentReadyState connectingState = Some CONNECTING
   \<and> connect (at 10) connectingState = connectingState
   \<and> currentReadyState connectedState \<noteq> Some CONNECTING
   \<and> \<not> ctorThrows (at 10)
   \<and> wsRef (connect (at 10) connectedState) = Some 1
   \<and> sockets (connect (at 10) connectedState) 1 = Some CONNECTING
   \<and> ctorThrows (failingCtor 10)
   \<and> connectionState (connect (failingCtor 10) connectedState) = Error
   \<and> wsRef (connect (failingCtor 10) connectedState) = Some 0
   \<and> nextSocket (connect (failingCtor 10) connectedState) = 1
   \<and> timers (connect (failingCtor 10) connectedState) 1 = Some (ReconnectTimer 1010)
   \<and> wsRef connectedState = Some 0
   \<and> 0 \<noteq> nextSocket connectedState
   \<and> sockets connectedState 0 = Some OPEN
   \<and> sockets (reconnect (at 10) connectedState) 0 = Some CLOSING
   \<and> wsRef (reconnect (at 10) connectedState) = Some 1
   \<and> sockets (reconnect (at 10) connectedState) 1 = Some CONNECTING
   \<and> connectionState (reconnect (failingCtor 10) connectedState) = Error
   \<and> wsRef (reconnect (failingCtor 10) connectedState) = Some 0"
proof -
  have h1: "currentReadyState connectingState = Some CONNECTING" by (simp add: run_defs model_defs)
  have h2: "currentReadyState connectedState \<noteq> Some CONNECTING" by (simp add: run_defs model_defs)
  have h3: "\<not> ctorThrows (at 10)" by (simp add: at_def)
  have h4: "ctorThrows (failingCtor 10)" by (simp add: failingCtor_def)
  have h5: "wsRef connectedState = Some 0" by (simp add: run_defs model_defs)
  have h6: "0 \<noteq> nextSocket connectedState" by (simp add: run_defs model_defs)
  have h7: "sockets connectedState 0 = Some OPEN" by (simp add: run_defs model_defs)
  have v: "nextSocket connectedState = 1" "nextTimer connectedState = 1"
    "reconnectAttempts connectedState = 0" "now (failingCtor 10) = 10"
    by (simp_all add: run_defs model_defs failingCtor_def)
  note t1 = connect_noop_while_connecting [where s = connectingState and e = "at 10"]
  note t2 = connect_noop_while_connecting [where s = connectedState and e = "at 10"]
  note t3 = connect_noop_while_connecting [where s = connectedState and e = "failingCtor 10"]
  have a: "connect (at 10) connectingState = connectingState"
    by (rule t1 [THEN conjunct1, THEN mp, OF h1])
  have b0: "connect (at 10) connectedState =
          connectedState\<lparr>connectionState := Connecting,
            sockets := (sockets connectedState)(nextSocket connectedState \<mapsto> CONNECTING),
            wsRef := Some (nextSocket connectedState),
            nextSocket := Suc (nextSocket connectedState)\<rparr>"
    by (rule t2 [THEN conjunct2, THEN conjunct1, THEN mp, OF conjI [OF h2 h3]])
  have b: "wsRef (connect (at 10) connectedState) = Some 1"
    "sockets (connect (at 10) connectedState) 1 = Some CONNECTING"
    by (simp_all add: b0 v)
  have c0: "connect (failingCtor 10) connectedState =
          (if reconnectAttempts connectedState < maxReconnectAttempts
           then connectedState\<lparr>connectionState := Error,
                  timers := (timers connectedState)(nextTimer connectedState \<mapsto>
                    ReconnectTimer (now (failingCtor 10)
                      + int (backoffTimeout (reconnectAttempts connectedState)))),
                  nextTimer := Suc (nextTimer connectedState),
                  reconnectTimeoutRef := Some (nextTimer connectedState)\<rparr>
           else connectedState\<lparr>connectionState := Error\<rparr>)"
    by (rule t3 [THEN conjunct2, THEN conjunct2, THEN conjunct1, THEN mp, OF conjI [OF h2 h4]])
  have c: "connectionState (connect (failingCtor 10) connectedState) = Error"
    "wsRef (connect (failingCtor 10) connectedState) = Some 0"
    "nextSocket (connect (failingCtor 10) connectedState) = 1"
    "timers (connect (failingCtor 10) connectedState) 1 = Some (ReconnectTimer 1010)"
    by (simp_all add: c0 v h5 maxReconnectAttempts_def backoffTimeout_def)
  have d: "sockets (reconnect (at 10) connectedState) 0 = Some CLOSING"
    by (rule t2 [THEN conjunct2, THEN conjunct2, THEN conjunct2, THEN conjunct2, THEN conjunct2,
          THEN conjunct1, rule_format, OF conjI [OF h5 conjI [OF h6 disjI1 [OF h7]]]])
  have e0: "connectionState (reconnect (at 10) connectedState) = Connecting
        \<and> wsRef (reconnect (at 10) connectedState) = Some (nextSocket connectedState)
        \<and> sockets (reconnect (at 10) connectedState) (nextSocket connectedState) = Some CONNECTING
        \<and> nextSocket (reconnect (at 10) connectedState) = Suc (nextSocket connectedState)"
    by (rule t2 [THEN conjunct2, THEN conjunct2, THEN conjunct2, THEN conjunct2, THEN conjunct2,
          THEN conjunct2, THEN conjunct1, THEN mp, OF h3])
  have e: "wsRef (reconnect (at 10) connectedState) = Some 1"
    "sockets (reconnect (at 10) connectedState) 1 = Some CONNECTING"
    using e0 by (simp_all add: v)
  have f0: "connectionState (reconnect (failingCtor 10) connectedState) = Error
        \<and> wsRef (reconnect (failingCtor 10) connectedState) = wsRef connectedState
        \<and> nextSocket (reconnect (failingCtor 10) connectedState) = nextSocket connectedState
        \<and> (\<exists>h. reconnectTimeoutRef (reconnect (failingCtor 10) connectedState) = Some h
               \<and> timers (reconnect (failingCtor 10) connectedState) h =
                  Some (ReconnectTimer (now (failingCtor 10) + 1000)))"
    by (rule t3 [THEN conjunct2, THEN conjunct2, THEN conjunct2, THEN conjunct2, THEN conjunct2,
          THEN conjunct2, THEN conjunct2, THEN mp, OF h4])
  have f: "connectionState (reconnect (failingCtor 10) connectedState) = Error"
    "wsRef (reconnect (failingCtor 10) connectedState) = Some 0"
    using f0 by (simp_all add: h5)
  from h1 a h2 h3 b h4 c h5 h6 h7 d e f show ?thesis by (intro conjI)
qed

text \<open>
  Claim C10. A tick of the heartbeat interval sends a ping only when \<^verbatim>\<open>wsRef.current\<close>
  exists and its \<^verbatim>\<open>readyState\<close> is \<^verbatim>\<open>OPEN\<close>, and then on that socket; on any other tick
  the state is unchanged and nothing is sent, also when the interval fires after the
  connection it was started for has gone.
\<close>

theorem heartbeat_probe_only_when_open:
  "(currentReadyState s \<noteq> Some OPEN \<longrightarrow> heartbeatTick e s = s)
   \<and> (\<forall>w. wsRef s = Some w \<and> sockets s w = Some OPEN \<longrightarrow>
          heartbeatTick e s = s\<lparr>effects := effects s @ [Sent w (Ping (now e))]\<rparr>)
   \<and> (\<forall>w f. Sent w f \<in> set (effects (heartbeatTick e s)) \<longrightarrow>
          Sent w f \<in> set (effects s) \<or> (wsRef s = Some w \<and> sockets s w = Some OPEN))
   \<and> (\<forall>h d. timers s h = Some (HeartbeatTimer d) \<and> currentReadyState s \<noteq> Some OPEN \<longrightarrow>
          effects (fireTimer e h s) = effects s)"
  by (auto simp: heartbeatTick_def currentReadyState_def wsSend_def fireTimer_def
      split: option.splits)

text \<open>The hypotheses of the theorem hold in a concrete run, and its conclusions there.\<close>

theorem heartbeat_probe_only_when_open_witness:
  "wsRef connectedState = Some 0
   \<and> sockets connectedState 0 = Some OPEN
   \<and> heartbeatTick (at 30005) connectedState =
       connectedState\<lparr>effects := effects connectedState @ [Sent 0 (Ping (now (at 30005)))]\<rparr>
   \<and> currentReadyState disconnectedState \<noteq> Some OPEN
   \<and> heartbeatTick (at 30005) disconnectedState = disconnectedState
   \<and> currentReadyState connectingState \<noteq> Some OPEN
   \<and> heartbeatTick (at 30005) connectingState = connectingState
   \<and> timers (step (at 13) (WsOpen 1) orphanedState) 2 = Some (HeartbeatTimer 30013)
   \<and> currentReadyState (step (at 13) (WsOpen 1) orphanedState) \<noteq> Some OPEN
   \<and> effects (fireTimer (at 30013) 2 (step (at 13) (WsOpen 1) orphanedState)) =
       effects (step (at 13) (WsOpen 1) orphanedState)"
proof -
  let ?f = "step (at 13) (WsOpen 1) orphanedState"
  have h5: "timers ?f 2 = Some (HeartbeatTimer 30013)" by (simp add: run_defs model_defs)
  have h6: "currentReadyState ?f \<noteq> Some OPEN" by (simp add: run_defs model_defs)
  have d: "effects (fireTimer (at 30013) 2 ?f) = effects ?f"
    by (rule heartbeat_probe_only_when_open [of ?f "at 30013",
          THEN conjunct2, THEN conjunct2, THEN conjunct2, rule_format, OF conjI [OF h5 h6]])
  have h1: "wsRef connectedState = Some 0" by (simp add: run_defs model_defs)
  have h2: "sockets connectedState 0 = Some OPEN" by (simp add: run_defs model_defs)
  have h3: "currentReadyState disconnectedState \<noteq> Some OPEN" by (simp add: run_defs model_defs)
  have h4: "currentReadyState connectingState \<noteq> Some OPEN" by (simp add: run_defs model_defs)
  have a: "heartbeatTick (at 30005) connectedState =
       connectedState\<lparr>effects := effects connectedState @ [Sent 0 (Ping (now (at 30005)))]\<rparr>"
    by (rule heartbeat_probe_only_when_open [of connectedState "at 30005",
          THEN conjunct2, THEN conjunct1, rule_format, OF conjI [OF h1 h2]])
  have b: "heartbeatTick (at 30005) disconnectedState = disconnectedState"
    by (rule heartbeat_probe_only_when_open [of disconnectedState "at 30005",
          THEN conjunct1, rule_format, OF h3])
  have c: "heartbeatTick (at 30005) connectingState = connectingState"
    by (rule heartbeat_probe_only_when_open [of connectingState "at 30005",
          THEN conjunct1, rule_format, OF h4])
  from h1 h2 a h3 b h4 c h5 h6 d show ?thesis by (intro conjI)
qed

lemma sendMessageRest_queue:
  "\<exists>xs. messageQueueRef (sendMessageRest e c req cs t) = messageQueueRef t @ xs"
  by (simp add: sendMessageRest_def enqueue_def sendHttpMessage_def reconnect_frame)

lemma runCont_queue: "\<exists>xs. messageQueueRef (runCont e k out t) = messageQueueRef t @ xs"
  by (cases k; cases out) (simp_all add: sendMessageRest_queue settleCaller_def)

lemma settlePromise_queue: "\<exists>xs. messageQueueRef (settlePromise e p out t) = messageQueueRef t @ xs"
proof (cases "map_of (promises t) p")
  case None
  then show ?thesis by (simp add: settlePromise_def)
next
  case (Some k)
  then show ?thesis
    using runCont_queue [of e k out "t\<lparr>promises := AList.delete p (promises t)\<rparr>"]
    by (simp add: settlePromise_def)
qed

lemma sendMessageInternal_queue:
  "\<exists>xs. messageQueueRef (sendMessageInternal e k req t) = messageQueueRef t @ xs"
proof (cases "currentReadyState t = Some OPEN")
  case True
  then obtain w where "wsRef t = Some w" "sockets t w = Some OPEN"
    by (auto simp: currentReadyState_def split: option.splits)
  then show ?thesis by (simp add: sendMessageInternal_open)
next
  case False
  then have "sendMessageInternal e k req t = runCont e k (Rejected NotConnected) t"
    by (simp add: sendMessageInternal_def currentReadyState_def split: option.splits)
  then show ?thesis by (simp add: runCont_queue)
qed

lemma step_keeps_queue:
  assumes "\<forall>w. ev \<noteq> WsOpen w"
  shows "\<exists>xs. messageQueueRef (step e ev s) = messageQueueRef s @ xs"
proof (cases ev)
  case (WsOpen w)
  with assms show ?thesis by simp
next
  case (WsMessage w d)
  show ?thesis
  proof (cases d)
    case (ChatResponseMsg r)
    show ?thesis
    proof (cases "map_of (messageCallbacksRef s) (resp_context_id r)")
      case None
      with WsMessage ChatResponseMsg show ?thesis by (simp add: onmessage_response_absent)
    next
      case (Some p)
      with WsMessage ChatResponseMsg show ?thesis
        using settlePromise_queue [of e p "Fulfilled r" "s\<lparr>lastMessage := Some (ChatResponseMsg r)\<rparr>"]
        by (simp add: onmessage_response_present)
    qed
  qed (simp_all add: WsMessage onmessage_def)
next
  case (WsClose w code)
  have "messageQueueRef (onclose e code t) = messageQueueRef t" for t
    by (simp add: onclose_def Let_def setTimer_def failPending_frame stopHeartbeat_def clearTimer_def
        split: option.splits)
  with WsClose show ?thesis by simp
next
  case (WsError w)
  then show ?thesis by (simp add: onerror_def)
next
  case (TimerFires h)
  show ?thesis
  proof (cases "timers s h")
    case None
    with TimerFires show ?thesis by (simp add: fireTimer_def)
  next
    case (Some tm)
    show ?thesis
    proof (cases "now e < due tm")
      case True
      with Some TimerFires show ?thesis by (simp add: fireTimer_def)
    next
      case False
      show ?thesis
      proof (cases tm)
        case (ReconnectTimer d)
        with Some False TimerFires show ?thesis
          by (simp add: fireTimer_def Let_def connect_frame clearTimer_def)
      next
        case (MessageTimer d m p)
        with Some False TimerFires show ?thesis
          using settlePromise_queue [of e p "Rejected MessageTimeout"
              "s\<lparr>timers := (timers s)(h := None),
                 messageCallbacksRef := AList.delete m (messageCallbacksRef s)\<rparr>"]
          by (simp add: fireTimer_MessageTimer)
      next
        case (HeartbeatTimer d)
        with Some False TimerFires show ?thesis
          by (simp add: fireTimer_def heartbeatTick_def wsSend_def split: option.splits)
      qed
    qed
  qed
next
  case (CallSendMessage req)
  let ?s1 = "s\<lparr>nextCaller := Suc (nextCaller s)\<rparr>"
  show ?thesis
    using CallSendMessage
      sendMessageInternal_queue [of e "Direct (nextCaller s) req (connectionState s)" req ?s1]
      sendMessageRest_queue [of e "nextCaller s" req "connectionState s" ?s1]
    by (simp add: sendMessage_def Let_def)
next
  case CallReconnect
  then show ?thesis by (simp add: reconnect_frame)
next
  case (HttpDone c res)
  then show ?thesis by (simp add: settleCaller_def)
next
  case Mount
  then show ?thesis by (simp add: connect_frame)
next
  case Unmount
  then show ?thesis
    by (simp add: Let_def stopHeartbeat_def clearTimer_def wsClose_def split: option.splits)
qed

text \<open>
  Claim C5, as amended. Staleness is checked only when the queue is drained, and the queue
  is drained only when a socket opens while \<^verbatim>\<open>wsRef.current\<close> is open: the drain empties
  the queue, rejects with \<^verbatim>\<open>'Message expired'\<close> every message older than 300000 ms
  without transmitting it, and transmits the others in order. With no open socket
  \<^verbatim>\<open>processMessageQueue\<close> does nothing, and no turn other than the \<^verbatim>\<open>open\<close> of a socket
  removes a message from the queue: there is no periodic eviction.
\<close>

theorem stale_messages_expire_at_drain:
  "(currentReadyState s \<noteq> Some OPEN \<longrightarrow> processMessageQueue e s = s)
   \<and> (\<forall>w. wsRef s = Some w \<and> sockets s w = Some OPEN \<longrightarrow>
        messageQueueRef (processMessageQueue e s) = []
      \<and> effects (processMessageQueue e s) = effects s @ map (drainEffect e w) (messageQueueRef s)
      \<and> (\<forall>q \<in> set (messageQueueRef s). 300000 < now e - q_timestamp q \<longrightarrow>
           CallerSettled (q_caller q) (Rejected MessageExpired)
             \<in> set (effects (processMessageQueue e s)))
      \<and> sentOn w (effects (processMessageQueue e s)) =
           sentOn w (effects s)
           @ map (chatFrame e) (filter (\<lambda>q. \<not> isExpired e q) (messageQueueRef s)))
   \<and> ((\<forall>w. ev \<noteq> WsOpen w) \<longrightarrow>
        (\<exists>xs. messageQueueRef (step e' ev s) = messageQueueRef s @ xs))"
proof -
  have closed: "processMessageQueue e s = s" if "currentReadyState s \<noteq> Some OPEN"
    using that by (simp add: processMessageQueue_def)
  have "open": "messageQueueRef (processMessageQueue e s) = []
      \<and> effects (processMessageQueue e s) = effects s @ map (drainEffect e w) (messageQueueRef s)
      \<and> (\<forall>q \<in> set (messageQueueRef s). 300000 < now e - q_timestamp q \<longrightarrow>
           CallerSettled (q_caller q) (Rejected MessageExpired)
             \<in> set (effects (processMessageQueue e s)))
      \<and> sentOn w (effects (processMessageQueue e s)) =
           sentOn w (effects s)
           @ map (chatFrame e) (filter (\<lambda>q. \<not> isExpired e q) (messageQueueRef s))"
    if w: "wsRef s = Some w \<and> sockets s w = Some OPEN" for w
  proof -
    let ?s0 = "s\<lparr>messageQueueRef := []\<rparr>"
    have p: "processMessageQueue e s = drainMessages e (messageQueueRef s) ?s0"
      using w by (simp add: processMessageQueue_def currentReadyState_def)
    have q: "messageQueueRef (processMessageQueue e s) = []"
      by (simp add: p drainMessages_frame)
    have eff: "effects (processMessageQueue e s) = effects s @ map (drainEffect e w) (messageQueueRef s)"
      using w drainMessages_effects [of ?s0 w e "messageQueueRef s"] by (simp add: p)
    have ex: "CallerSettled (q_caller q) (Rejected MessageExpired)
             \<in> set (effects (processMessageQueue e s))"
      if "q \<in> set (messageQueueRef s)" "300000 < now e - q_timestamp q" for q
    proof -
      from that have "drainEffect e w q = CallerSettled (q_caller q) (Rejected MessageExpired)"
        by (simp add: drainEffect_def isExpired_def)
      with that(1) show ?thesis unfolding eff by force
    qed
    have sent: "sentOn w (effects (processMessageQueue e s)) =
           sentOn w (effects s)
           @ map (chatFrame e) (filter (\<lambda>q. \<not> isExpired e q) (messageQueueRef s))"
      by (simp add: eff sentOn_append sentOn_drain)
    from q eff ex sent show ?thesis by blast
  qed
  from closed "open" step_keeps_queue [of ev e' s] show ?thesis by blast
qed

text \<open>
  The claim C5 as stated fails. Message A is enqueued at time 0 while the server cannot be
  reached; the connection attempts fail one after the other, with the reconnect timers
  firing on time. At time 315000 the message is 15000 ms past the horizon of 300000 ms: it
  is still in the queue, and its caller has been told nothing.
\<close>

theorem stale_message_stays_queued:
  "isExpired (at 315000) \<lparr>q_request = requestA, q_caller = 0, q_timestamp = 0\<rparr>
   \<and> messageQueueRef staleRun = [\<lparr>q_request = requestA, q_caller = 0, q_timestamp = 0\<rparr>]
   \<and> effects staleRun = []
   \<and> settledCallers (effects staleRun) = []
   \<and> connectionState staleRun = Disconnected
   \<and> reconnectAttempts staleRun = 4
   \<and> timers staleRun 4 = Some (ReconnectTimer 331000)"
  by (simp add: run_defs model_defs)

text \<open>The hypotheses of the theorem hold in a concrete run, and its conclusions there.\<close>

theorem stale_messages_expire_at_drain_witness:
  "wsRef queuedOpenState = Some 0
   \<and> sockets queuedOpenState 0 = Some OPEN
   \<and> messageQueueRef (processMessageQueue (at 350000) queuedOpenState) = []
   \<and> \<lparr>q_request = requestA, q_caller = 0, q_timestamp = 0\<rparr> \<in> set (messageQueueRef queuedOpenState)
   \<and> 300000 < now (at 350000) - q_timestamp \<lparr>q_request = requestA, q_caller = 0, q_timestamp = 0\<rparr>
   \<and> CallerSettled 0 (Rejected MessageExpired)
        \<in> set (effects (processMessageQueue (at 350000) queuedOpenState))
   \<and> sentOn 0 (effects (processMessageQueue (at 350000) queuedOpenState)) =
        [Chat (requestB\<lparr>context_id := Some ''350000''\<rparr>)]
   \<and> currentReadyState queuedState \<noteq> Some OPEN
   \<and> processMessageQueue (at 350000) queuedState = queuedState
   \<and> (\<exists>xs. messageQueueRef (step (at 350000) (WsClose 0 1006) queuedState) =
          messageQueueRef queuedState @ xs)"
proof -
  let ?qa = "\<lparr>q_request = requestA, q_caller = 0, q_timestamp = 0\<rparr>"
  let ?qb = "\<lparr>q_request = requestB, q_caller = 1, q_timestamp = 200000\<rparr>"
  have h1: "wsRef queuedOpenState = Some 0" by (simp add: run_defs model_defs)
  have h2: "sockets queuedOpenState 0 = Some OPEN" by (simp add: run_defs model_defs)
  have qu: "messageQueueRef queuedOpenState = [?qa, ?qb]" by (simp add: run_defs model_defs)
  have ef: "effects queuedOpenState = []" by (simp add: run_defs model_defs)
  have h3: "?qa \<in> set (messageQueueRef queuedOpenState)" by (simp add: qu)
  have h4: "300000 < now (at 350000) - q_timestamp ?qa" by (simp add: at_def)
  have h5: "currentReadyState queuedState \<noteq> Some OPEN" by (simp add: run_defs model_defs)
  have id: "toString 350000 = ''350000''" by (simp add: run_defs model_defs)
  note inst = stale_messages_expire_at_drain [where s = queuedOpenState and e = "at 350000",
      THEN conjunct2, THEN conjunct1, rule_format, OF conjI [OF h1 h2]]
  have a: "messageQueueRef (processMessageQueue (at 350000) queuedOpenState) = []"
    by (rule inst [THEN conjunct1])
  have b: "CallerSettled 0 (Rejected MessageExpired)
        \<in> set (effects (processMessageQueue (at 350000) queuedOpenState))"
    using inst [THEN conjunct2, THEN conjunct2, THEN conjunct1, rule_format, OF h3 h4] by simp
  have c: "sentOn 0 (effects (processMessageQueue (at 350000) queuedOpenState)) =
        [Chat (requestB\<lparr>context_id := Some ''350000''\<rparr>)]"
    using inst [THEN conjunct2, THEN conjunct2, THEN conjunct2]
    by (simp add: qu ef isExpired_def chatFrame_def at_def id)
  have d: "processMessageQueue (at 350000) queuedState = queuedState"
    by (rule stale_messages_expire_at_drain [where s = queuedState and e = "at 350000",
          THEN conjunct1, rule_format, OF h5])
  have h6: "\<forall>w. WsClose 0 1006 \<noteq> WsOpen w" by simp
  have f: "\<exists>xs. messageQueueRef (step (at 350000) (WsClose 0 1006) queuedState) =
          messageQueueRef queuedState @ xs"
    by (rule stale_messages_expire_at_drain [where s = queuedState and ev = "WsClose 0 1006"
          and e' = "at 350000", THEN conjunct2, THEN conjunct2, THEN mp, OF h6])
  from h1 h2 a h3 h4 b c h5 d f show ?thesis by (intro conjI)
qed

end
